theory Spec2Isabelle
  imports Main "HOL-Library.AList" "HOL-Library.Char_ord" "HOL-Library.List_Lexorder"
begin

section \<open>JSON values and JavaScript objects\<close>

text \<open>
  The processor in \<^verbatim>\<open>src/js/jsonld.js\<close> works on parsed JSON.  A value is null, a
  boolean, a number, a string, an array, or an object.  \<open>JNum n\<close> is the integer literal
  \<open>n\<close> of a document; its value in the program is the double nearest to \<open>n\<close>.  Numbers
  with a fraction are not in the embedding (for the integral ones \<^verbatim>\<open>_isDouble\<close> is
  false, so the double formatting of \<^verbatim>\<open>expandValue\<close> is never entered).  \<open>JUndef\<close> is
  JavaScript's \<^verbatim>\<open>undefined\<close>: no JSON document holds it, but reading a missing property
  gives it and the processor passes it on.  \<open>JNative k\<close> is what every object inherits
  under the name \<open>k\<close> from \<^verbatim>\<open>Object.prototype\<close>: a built-in function, or, for
  \<^verbatim>\<open>__proto__\<close>, the prototype object itself.

  An object is the list of its own keys in the order \<^verbatim>\<open>for ... in\<close> and
  \<^verbatim>\<open>Object.keys\<close> give them: the keys that are array indices first, in numeric order,
  then the others in the order they were created.  Two objects or two arrays are never
  the same reference (the values are trees), so \<^verbatim>\<open>===\<close> is false on them.
\<close>

datatype json =
    JNull
  | JUndef
  | JBool bool
  | JNum int
  | JStr string
  | JArr "json list"
  | JObj "(string \<times> json) list"
  | JNative string

type_synonym obj = "(string \<times> json) list"

text \<open>What is thrown or handed to a callback as its error: the \<^verbatim>\<open>type\<close> of a
  \<^verbatim>\<open>JsonLdError\<close> (with the failures a \<^verbatim>\<open>ContextUrlError\<close> lists, the URL of an
  \<^verbatim>\<open>InvalidUrl\<close>, the \<^verbatim>\<open>cause\<close> of a \<^verbatim>\<open>CompactError\<close>), a built-in error of the
  language, or a plain value used as an error.  \<open>Unmodelled\<close> marks the few behaviours
  of JavaScript that the embedding leaves out.\<close>

datatype error =
    SyntaxError
  | CyclicalContext
  | InvalidContext
  | ContextUrlError "error list"
  | InvalidUrl string
  | CompactError "error option"
  | Plain json
  | JsSyntaxError
  | NotImplemented
  | JsTypeError
  | JsReferenceError
  | JsRangeError
  | Unmodelled

text \<open>A call returns a value or throws.\<close>

datatype 'a result = Ok 'a | Throw error

definition bindR :: "'a result \<Rightarrow> ('a \<Rightarrow> 'b result) \<Rightarrow> 'b result" where
  "bindR m f = (case m of Ok x \<Rightarrow> f x | Throw e \<Rightarrow> Throw e)"

text \<open>The members of \<^verbatim>\<open>Object.prototype\<close> (those of the standard and those every
  engine adds).  A plain object has them all through its prototype, and the prototype
  object has them as its own.\<close>

definition proto_names :: "string list" where
  "proto_names =
     [''constructor'', ''toString'', ''toLocaleString'', ''valueOf'', ''hasOwnProperty'',
      ''isPrototypeOf'', ''propertyIsEnumerable'', ''__defineGetter__'',
      ''__defineSetter__'', ''__lookupGetter__'', ''__lookupSetter__'', ''__proto__'']"

text \<open>An own key (\<open>obj_has\<close>, \<open>obj_get\<close>), \<^verbatim>\<open>k in o\<close> (\<open>obj_in\<close>: own or inherited) and
  \<^verbatim>\<open>o[k]\<close> (\<open>obj_read\<close>: the own value, else the inherited one, else undefined).\<close>

definition obj_has :: "obj \<Rightarrow> string \<Rightarrow> bool" where
  "obj_has ob k = (map_of ob k \<noteq> None)"

definition obj_get :: "obj \<Rightarrow> string \<Rightarrow> json option" where
  "obj_get ob k = map_of ob k"

definition obj_in :: "obj \<Rightarrow> string \<Rightarrow> bool" where
  "obj_in ob k = (obj_has ob k \<or> k \<in> set proto_names)"

definition obj_read :: "obj \<Rightarrow> string \<Rightarrow> json" where
  "obj_read ob k =
     (case map_of ob k of
        Some v \<Rightarrow> v
      | None \<Rightarrow> if k \<in> set proto_names then JNative k else JUndef)"

text \<open>A key is an array index when it is the decimal numeral, without leading zeros,
  of a number below \<open>2^32 - 1\<close>.\<close>

definition index_val :: "string \<Rightarrow> int" where
  "index_val s = fold (\<lambda>c n. 10 * n + (of_char c - 48)) s 0"

definition is_digit :: "char \<Rightarrow> bool" where
  "is_digit c = (48 \<le> (of_char c :: int) \<and> (of_char c :: int) \<le> 57)"

definition is_index :: "string \<Rightarrow> bool" where
  "is_index s =
     (s \<noteq> [] \<and> list_all is_digit s \<and> (length s = 1 \<or> hd s \<noteq> CHR ''0'') \<and>
      index_val s < 4294967295)"

fun insert_index :: "string \<Rightarrow> json \<Rightarrow> obj \<Rightarrow> obj" where
  "insert_index k v [] = [(k, v)]"
| "insert_index k v ((k', v') # rest) =
     (if is_index k' \<and> index_val k' < index_val k then (k', v') # insert_index k v rest
      else (k, v) # (k', v') # rest)"

text \<open>
  \<^verbatim>\<open>o[k] = v\<close>: an own key keeps its place; a new index goes among the indices, any
  other new key goes last.  An assignment to \<^verbatim>\<open>__proto__\<close>, when that is not an own
  key, creates no key: a primitive is ignored and an object becomes the prototype (what
  the object inherits after that is not modelled).  \<^verbatim>\<open>delete o[k]\<close> is \<open>obj_del\<close>.
\<close>

definition obj_set :: "obj \<Rightarrow> string \<Rightarrow> json \<Rightarrow> obj" where
  "obj_set ob k v =
     (if obj_has ob k then AList.update k v ob
      else if k = ''__proto__'' then ob
      else if is_index k then insert_index k v ob
      else ob @ [(k, v)])"

definition obj_del :: "obj \<Rightarrow> string \<Rightarrow> obj" where
  "obj_del ob k = AList.delete k ob"

text \<open>Truthiness: null, undefined, false, 0 and the empty string are falsy.\<close>

fun truthy :: "json \<Rightarrow> bool" where
  "truthy JNull = False"
| "truthy JUndef = False"
| "truthy (JBool b) = b"
| "truthy (JNum n) = (n \<noteq> 0)"
| "truthy (JStr s) = (s \<noteq> [])"
| "truthy (JArr xs) = True"
| "truthy (JObj kvs) = True"
| "truthy (JNative k) = True"

text \<open>\<open>own_props\<close>: the own enumerable keys of a value that is an object (the
  prototype object has none).\<close>

fun own_props :: "json \<Rightarrow> obj option" where
  "own_props (JObj kvs) = Some kvs"
| "own_props (JNative k) = (if k = ''__proto__'' then Some [] else None)"
| "own_props v = None"

text \<open>
  \<^verbatim>\<open>_isObject\<close>, \<^verbatim>\<open>_isArray\<close>, \<^verbatim>\<open>_isString\<close>: \<^verbatim>\<open>input && input.constructor === C\<close>,
  so the empty string is not a string for \<^verbatim>\<open>_isString\<close>; an object with an own key
  \<^verbatim>\<open>constructor\<close> is not an object for \<^verbatim>\<open>_isObject\<close> (its value comes from JSON and is
  never the function \<^verbatim>\<open>Object\<close>); and the prototype object, whose \<^verbatim>\<open>constructor\<close> is
  \<^verbatim>\<open>Object\<close>, is one.  \<open>as_object\<close> gives the own keys of what \<^verbatim>\<open>_isObject\<close> accepts.
\<close>

fun as_object :: "json \<Rightarrow> obj option" where
  "as_object (JObj kvs) = (if obj_has kvs ''constructor'' then None else Some kvs)"
| "as_object (JNative k) = (if k = ''__proto__'' then Some [] else None)"
| "as_object v = None"

definition isObject :: "json \<Rightarrow> bool" where
  "isObject v = (as_object v \<noteq> None)"

fun isArray :: "json \<Rightarrow> bool" where
  "isArray (JArr xs) = True"
| "isArray v = False"

fun isString :: "json \<Rightarrow> bool" where
  "isString (JStr s) = (s \<noteq> [])"
| "isString v = False"

text \<open>The double nearest to an integer: exact up to 53 binary digits, beyond that
  rounded to 53 digits with ties to the even one, and infinite (here \<open>2^1024\<close>) from
  there on.\<close>

function bit_length :: "int \<Rightarrow> nat" where
  "bit_length n = (if n \<le> 0 then 0 else Suc (bit_length (n div 2)))"
  by pat_completeness auto

termination
  by (relation "measure nat") auto

definition double_of :: "int \<Rightarrow> int" where
  "double_of n =
     (let m = \<bar>n\<bar>; l = bit_length m in
      if l \<le> 53 then n
      else
        (let e = l - 53;
             q = m div 2 ^ e;
             r = m mod 2 ^ e;
             h = 2 ^ (e - 1);
             q1 = (if h < r \<or> (r = h \<and> odd q) then q + 1 else q);
             m1 = q1 * 2 ^ e
         in sgn n * (if 2 ^ 1024 \<le> m1 then 2 ^ 1024 else m1)))"

text \<open>\<^verbatim>\<open>a === b\<close>: by value on primitives, by reference on arrays, objects and
  built-ins.\<close>

fun strict_eq :: "json \<Rightarrow> json \<Rightarrow> bool" where
  "strict_eq JNull JNull = True"
| "strict_eq JUndef JUndef = True"
| "strict_eq (JBool a) (JBool b) = (a = b)"
| "strict_eq (JNum a) (JNum b) = (double_of a = double_of b)"
| "strict_eq (JStr a) (JStr b) = (a = b)"
| "strict_eq (JNative a) (JNative b) = (a = b)"
| "strict_eq a b = False"

section \<open>The value helpers of the utility API\<close>

text \<open>\<^verbatim>\<open>jsonld.hasProperty\<close>: \<^verbatim>\<open>property in subject\<close>, and the value is not an empty
  array.\<close>

definition hasProperty :: "obj \<Rightarrow> string \<Rightarrow> bool" where
  "hasProperty subject property =
     (if obj_in subject property then
        (case obj_read subject property of JArr xs \<Rightarrow> xs \<noteq> [] | _ \<Rightarrow> True)
      else False)"

text \<open>\<^verbatim>\<open>jsonld.hasValue\<close>.  On an array it calls \<^verbatim>\<open>indexOf(val, value)\<close>, a function
  that the file never defines: the call throws a \<^verbatim>\<open>ReferenceError\<close>.\<close>

definition hasValue :: "obj \<Rightarrow> string \<Rightarrow> json \<Rightarrow> bool result" where
  "hasValue subject property v =
     (if hasProperty subject property then
        (let val = obj_read subject property in
         if isArray val then Throw JsReferenceError
         else if \<not> isArray v then Ok (strict_eq val v)
         else Ok False)
      else Ok False)"

text \<open>\<^verbatim>\<open>jsonld.addValue\<close>, returning the updated subject.  The local variable
  \<^verbatim>\<open>hasValue\<close> of the source holds the negation of \<^verbatim>\<open>jsonld.hasValue(...)\<close>; it is
  \<open>nhv\<close> here.  \<^verbatim>\<open>push\<close> on something that is not an array is a \<^verbatim>\<open>TypeError\<close>.\<close>

definition addValue :: "obj \<Rightarrow> string \<Rightarrow> json \<Rightarrow> bool \<Rightarrow> obj result" where
  "addValue subject property v propertyIsArray =
     (if obj_in subject property then
        bindR (hasValue subject property v) (\<lambda>hv.
          let nhv = \<not> hv;
              old = obj_read subject property;
              subject1 = (if \<not> isArray old \<and> (\<not> nhv \<or> propertyIsArray)
                          then obj_set subject property (JArr [old]) else subject)
          in if \<not> nhv then
               (case obj_read subject1 property of
                  JArr xs \<Rightarrow> Ok (obj_set subject1 property (JArr (xs @ [v])))
                | _ \<Rightarrow> Throw JsTypeError)
             else Ok subject1)
      else Ok (obj_set subject property (if propertyIsArray then JArr [v] else v)))"

text \<open>\<^verbatim>\<open>jsonld.getValues\<close>: \<^verbatim>\<open>subject[property] || []\<close>, wrapped when it is not an
  array.\<close>

definition getValues :: "obj \<Rightarrow> string \<Rightarrow> json" where
  "getValues subject property =
     (let stored = obj_read subject property;
          rval = (if truthy stored then stored else JArr [])
      in if \<not> isArray rval then JArr [rval] else rval)"

section \<open>The context and the IRI resolver\<close>

text \<open>\<^verbatim>\<open>s.indexOf(c)\<close> (\<open>None\<close> for -1) and the string a value becomes as a property
  key or under \<^verbatim>\<open>+\<close> with a string.  An object is converted by the inherited
  \<^verbatim>\<open>toString\<close>; with an own key \<^verbatim>\<open>toString\<close>, whose value from JSON is no function, the
  conversion is a \<^verbatim>\<open>TypeError\<close>.  Left out: an array (its elements joined), a
  built-in function (its source text) and a number of more than 53 binary digits (its
  shortest decimal form, with an exponent from \<open>10^21\<close> on).\<close>

fun index_of :: "char \<Rightarrow> string \<Rightarrow> nat option" where
  "index_of c [] = None"
| "index_of c (x # xs) =
     (if x = c then Some 0 else map_option Suc (index_of c xs))"

fun digits :: "nat \<Rightarrow> int \<Rightarrow> string" where
  "digits 0 n = []"
| "digits (Suc f) n =
     (if n < 10 then [char_of (48 + n)]
      else digits f (n div 10) @ [char_of (48 + n mod 10)])"

definition show_int :: "int \<Rightarrow> string" where
  "show_int i = (if i < 0 then CHR ''-'' # digits (Suc (bit_length (- i))) (- i)
                 else digits (Suc (bit_length i)) i)"

fun to_str :: "json \<Rightarrow> string result" where
  "to_str JNull = Ok ''null''"
| "to_str JUndef = Ok ''undefined''"
| "to_str (JBool b) = Ok (if b then ''true'' else ''false'')"
| "to_str (JNum n) =
     (if bit_length \<bar>n\<bar> \<le> 53 then Ok (show_int n) else Throw Unmodelled)"
| "to_str (JStr s) = Ok s"
| "to_str (JArr xs) = Throw Unmodelled"
| "to_str (JObj kvs) =
     (if obj_has kvs ''toString'' then Throw JsTypeError else Ok ''[object Object]'')"
| "to_str (JNative k) =
     (if k = ''__proto__'' then Ok ''[object Object]'' else Throw Unmodelled)"

text \<open>
  \<^verbatim>\<open>_getKeywords\<close>: the identity table of the eight keywords, overwritten by the
  aliases of the context.  The test \<^verbatim>\<open>ctx[key] in rval\<close> also holds of an inherited
  name; \<^verbatim>\<open>keywords[ctx[key]] = key\<close> then makes it an own key, except for \<^verbatim>\<open>__proto__\<close>,
  where the assignment of a string does nothing.  \<open>kw_in\<close> and \<open>kw_read\<close> are \<^verbatim>\<open>in\<close> and
  the read on the table.
\<close>

definition keyword_table :: "(string \<times> string) list" where
  "keyword_table =
     [(''@container'', ''@container''), (''@graph'', ''@graph''), (''@id'', ''@id''),
      (''@language'', ''@language''), (''@list'', ''@list''), (''@set'', ''@set''),
      (''@type'', ''@type''), (''@value'', ''@value'')]"

definition kw_in :: "(string \<times> string) list \<Rightarrow> string \<Rightarrow> bool" where
  "kw_in kws k = (map_of kws k \<noteq> None \<or> k \<in> set proto_names)"

definition kw_read :: "(string \<times> string) list \<Rightarrow> string \<Rightarrow> json" where
  "kw_read kws k =
     (case map_of kws k of
        Some alias \<Rightarrow> JStr alias
      | None \<Rightarrow> if k \<in> set proto_names then JNative k else JUndef)"

definition getKeywords :: "obj \<Rightarrow> (string \<times> string) list" where
  "getKeywords ctx =
     (let keywords =
            fold (\<lambda>(key, v) acc.
                    case v of
                      JStr s \<Rightarrow> if s \<noteq> [] \<and> kw_in keyword_table s \<and> s \<noteq> ''__proto__''
                                then AList.update s key acc else acc
                    | _ \<Rightarrow> acc) ctx []
      in fold (\<lambda>(key, alias) rval. AList.update key alias rval) keywords keyword_table)"

text \<open>The loop of step 3 of \<^verbatim>\<open>_expandTerm\<close>: the first keyword whose alias is the term.\<close>

fun keyword_of_alias :: "(string \<times> string) list \<Rightarrow> string \<Rightarrow> string option" where
  "keyword_of_alias [] t = None"
| "keyword_of_alias ((key, alias) # kws) t =
     (if t = alias then Some key else keyword_of_alias kws t)"

text \<open>
  \<^verbatim>\<open>_expandTerm(ctx, term, deep)\<close> and \<^verbatim>\<open>jsonld.getContextValue(ctx, key, type, expand)\<close>
  call each other: step 1 reads the prefix's \<^verbatim>\<open>@id\<close> with expansion, and the expansion
  is a full \<^verbatim>\<open>_expandTerm\<close>.  A context such as \<^verbatim>\<open>{"a": "a:b"}\<close> makes that recursion
  unbounded.  The first argument is the depth of call stack that is left: when it is
  used up the engine throws a \<^verbatim>\<open>RangeError\<close>.

  \<open>expandTerm_loop\<close> is the \<^verbatim>\<open>while(recurse !== rval)\<close> loop with its variables
  \<^verbatim>\<open>cycles\<close> (its own keys), \<^verbatim>\<open>recurse\<close> and \<^verbatim>\<open>rval\<close>; the source assigns \<^verbatim>\<open>rval\<close> only
  after the loop, and \<^verbatim>\<open>rval in cycles\<close> holds of an inherited name from the start.
  The \<^verbatim>\<open>throw\<close> of \<^verbatim>\<open>getContextValue\<close> builds its details from the undeclared variable
  \<^verbatim>\<open>ctx2\<close>, so what is thrown is a \<^verbatim>\<open>ReferenceError\<close>.  A term that is not a string has
  no \<^verbatim>\<open>indexOf\<close> (\<^verbatim>\<open>TypeError\<close>), except an array, which is not modelled.
\<close>

fun expandTerm :: "nat \<Rightarrow> obj \<Rightarrow> json \<Rightarrow> bool \<Rightarrow> json result"
  and expandTerm_loop :: "nat \<Rightarrow> obj \<Rightarrow> string list \<Rightarrow> json \<Rightarrow> json \<Rightarrow> json result"
  and getContextValue :: "nat \<Rightarrow> obj \<Rightarrow> string \<Rightarrow> string \<Rightarrow> bool \<Rightarrow> json result"
where
  "expandTerm 0 ctx t deep = Throw JsRangeError"
| "expandTerm (Suc n) ctx t deep =
     (case t of
        JStr s \<Rightarrow>
          bindR
            (case index_of CHR '':'' s of
               Some idx \<Rightarrow>
                 (let prefix = take idx s in
                  if obj_in ctx prefix then
                    bindR (getContextValue n ctx prefix ''@id'' True) (\<lambda>iri.
                    bindR (to_str iri) (\<lambda>i. Ok (JStr (i @ drop (idx + 1) s))))
                  else Ok t)
             | None \<Rightarrow>
                 if obj_in ctx s then getContextValue n ctx s ''@id'' False
                 else (case keyword_of_alias (getKeywords ctx) s of
                         Some key \<Rightarrow> Ok (JStr key)
                       | None \<Rightarrow> Ok t))
            (\<lambda>rval. if deep then Ok rval else expandTerm_loop n ctx [] JNull rval)
      | JArr xs \<Rightarrow> Throw Unmodelled
      | _ \<Rightarrow> Throw JsTypeError)"
| "expandTerm_loop 0 ctx cycles recurse rval = Throw JsRangeError"
| "expandTerm_loop (Suc n) ctx cycles recurse rval =
     (if \<not> strict_eq recurse rval then
        bindR (to_str rval) (\<lambda>k.
          if k \<in> set cycles \<or> k \<in> set proto_names then Throw CyclicalContext
          else bindR (expandTerm n ctx rval True) (\<lambda>r.
                 expandTerm_loop n ctx (k # cycles) r rval))
      else Ok recurse)"
| "getContextValue 0 ctx key ty expand = Throw JsRangeError"
| "getContextValue (Suc n) ctx key ty expand =
     (if obj_in ctx key then
        (let entry = obj_read ctx key in
         bindR
           (if isObject entry then
              (case as_object entry of
                 Some e \<Rightarrow> if obj_in e ty then Ok (obj_read e ty) else Ok JNull
               | None \<Rightarrow> Ok JNull)
            else if ty = ''@id'' \<and> isString entry then Ok entry
            else Throw JsReferenceError)
           (\<lambda>rval. if expand then expandTerm n ctx rval False else Ok rval))
      else Ok JNull)"

text \<open>The calls with the default arguments: \<^verbatim>\<open>_expandTerm(ctx, term)\<close> and
  \<^verbatim>\<open>getContextValue(ctx, key, type)\<close>.  A \<^verbatim>\<open>null\<close> property used as a key is the key
  \<^verbatim>\<open>"null"\<close>; as a term it has no \<^verbatim>\<open>indexOf\<close>.\<close>

definition key_of :: "string option \<Rightarrow> string" where
  "key_of property = (case property of None \<Rightarrow> ''null'' | Some p \<Rightarrow> p)"

definition term_of :: "string option \<Rightarrow> json" where
  "term_of property = (case property of None \<Rightarrow> JNull | Some p \<Rightarrow> JStr p)"

section \<open>Cloning and merging contexts\<close>

text \<open>
  \<^verbatim>\<open>_clone\<close>: an object is rebuilt from the empty object by assigning its keys in
  sorted order (the default sort, by code unit), each with the clone of its value; an
  array is cloned element by element; anything else is returned as it is.  \<open>rebuild\<close>
  is the loop of assignments; cloning the values first and sorting after gives the same
  list to it.  The prototype object is an object without enumerable keys, and an
  object with an own key \<^verbatim>\<open>constructor\<close> fails \<^verbatim>\<open>_isObject\<close> and is returned as it is.
  \<open>clone_obj\<close> is \<open>clone\<close> on the keys of an object.
\<close>

definition rebuild :: "obj \<Rightarrow> obj" where
  "rebuild kvs = fold (\<lambda>(k, v) rval. obj_set rval k v) kvs []"

fun clone :: "json \<Rightarrow> json"
  and clone_elems :: "json list \<Rightarrow> json list"
  and clone_fields :: "obj \<Rightarrow> obj"
where
  "clone (JObj kvs) =
     (if obj_has kvs ''constructor'' then JObj kvs
      else JObj (rebuild (sort_key fst (clone_fields kvs))))"
| "clone (JArr xs) = JArr (clone_elems xs)"
| "clone JNull = JNull"
| "clone JUndef = JUndef"
| "clone (JBool b) = JBool b"
| "clone (JNum n) = JNum n"
| "clone (JStr s) = JStr s"
| "clone (JNative k) = (if k = ''__proto__'' then JObj [] else JNative k)"
| "clone_elems [] = []"
| "clone_elems (x # xs) = clone x # clone_elems xs"
| "clone_fields [] = []"
| "clone_fields ((k, v) # kvs) = (k, clone v) # clone_fields kvs"

definition clone_obj :: "obj \<Rightarrow> obj" where
  "clone_obj ob =
     (if obj_has ob ''constructor'' then ob else rebuild (sort_key fst (clone_fields ob)))"

text \<open>The inner loop of \<^verbatim>\<open>Processor.prototype.mergeContexts\<close>: scan \<^verbatim>\<open>rval\<close> in key order,
  delete the first key whose \<^verbatim>\<open>@id\<close> is the new IRI, and \<^verbatim>\<open>break\<close>.\<close>

fun remove_match :: "nat \<Rightarrow> obj \<Rightarrow> json \<Rightarrow> obj \<Rightarrow> obj result" where
  "remove_match f rval newIri [] = Ok rval"
| "remove_match f rval newIri ((mkey, v) # rest) =
     bindR (getContextValue f rval mkey ''@id'' True) (\<lambda>old.
       if strict_eq newIri old then Ok (obj_del rval mkey)
       else remove_match f rval newIri rest)"

text \<open>The outer loop: for each key of \<^verbatim>\<open>ctx2\<close>, its \<^verbatim>\<open>@id\<close>; \<^verbatim>\<open>null\<close> is skipped.\<close>

fun remove_old :: "nat \<Rightarrow> obj \<Rightarrow> obj \<Rightarrow> obj \<Rightarrow> obj result" where
  "remove_old f ctx2 rval [] = Ok rval"
| "remove_old f ctx2 rval ((key, v) # ks) =
     bindR (getContextValue f ctx2 key ''@id'' True) (\<lambda>newIri.
       if strict_eq newIri JNull then remove_old f ctx2 rval ks
       else bindR (remove_match f rval newIri rval) (\<lambda>r. remove_old f ctx2 r ks))"

text \<open>
  \<^verbatim>\<open>Processor.prototype.mergeContexts(ctx1, ctx2)\<close>.  \<open>mergeContexts_obj\<close> is the body
  for a first context that is an object (what every recursive call on an element of an
  array \<^verbatim>\<open>ctx2\<close> gets); \<open>mergeContexts\<close> adds the flattening of an array \<^verbatim>\<open>ctx1\<close>.
  A \<^verbatim>\<open>ctx2\<close> that is neither an array nor an object: \<^verbatim>\<open>for ... in\<close> runs no iteration
  on null, undefined, a boolean, a number, a built-in and the empty string; on another
  string it runs over the indices, and \<^verbatim>\<open>key in ctx\<close> on a string is a \<^verbatim>\<open>TypeError\<close>.  A
  first context that is neither an object nor an array is not modelled.
\<close>

fun mergeContexts_obj :: "nat \<Rightarrow> obj \<Rightarrow> json \<Rightarrow> obj result"
  and mergeContexts_each :: "nat \<Rightarrow> obj \<Rightarrow> json list \<Rightarrow> obj result"
where
  "mergeContexts_obj f ctx1 (JArr xs) = mergeContexts_each f (clone_obj ctx1) xs"
| "mergeContexts_obj f ctx1 (JObj ctx2) =
     bindR (remove_old f ctx2 (clone_obj ctx1) ctx2) (\<lambda>rval.
       Ok (fold (\<lambda>(key, v) r. obj_set r key v) ctx2 rval))"
| "mergeContexts_obj f ctx1 (JStr s) =
     (if s = [] then Ok (clone_obj ctx1) else Throw JsTypeError)"
| "mergeContexts_obj f ctx1 JNull = Ok (clone_obj ctx1)"
| "mergeContexts_obj f ctx1 JUndef = Ok (clone_obj ctx1)"
| "mergeContexts_obj f ctx1 (JBool b) = Ok (clone_obj ctx1)"
| "mergeContexts_obj f ctx1 (JNum n) = Ok (clone_obj ctx1)"
| "mergeContexts_obj f ctx1 (JNative k) = Ok (clone_obj ctx1)"
| "mergeContexts_each f rval [] = Ok rval"
| "mergeContexts_each f rval (x # xs) =
     bindR (mergeContexts_obj f rval x) (\<lambda>r. mergeContexts_each f r xs)"

definition mergeContexts :: "nat \<Rightarrow> json \<Rightarrow> json \<Rightarrow> obj result" where
  "mergeContexts f ctx1 ctx2 =
     (case ctx1 of
        JArr xs \<Rightarrow> bindR (mergeContexts_obj f [] (JArr xs)) (\<lambda>c. mergeContexts_obj f c ctx2)
      | JObj c \<Rightarrow> mergeContexts_obj f c ctx2
      | _ \<Rightarrow> Throw Unmodelled)"

section \<open>Compacting IRIs and coercing values\<close>

text \<open>The test \<^verbatim>\<open>key.length > 0 && key[0] !== '@'\<close> of \<^verbatim>\<open>_compactIri\<close>.\<close>

definition term_key :: "string \<Rightarrow> bool" where
  "term_key key = (key \<noteq> [] \<and> hd key \<noteq> CHR ''@'')"

text \<open>The first loop of \<^verbatim>\<open>_compactIri\<close>: the first term whose \<^verbatim>\<open>@id\<close> is the IRI.\<close>

fun compactIri_term :: "nat \<Rightarrow> obj \<Rightarrow> json \<Rightarrow> obj \<Rightarrow> string option result" where
  "compactIri_term f ctx iri [] = Ok None"
| "compactIri_term f ctx iri ((key, v) # rest) =
     (if term_key key then
        bindR (getContextValue f ctx key ''@id'' True) (\<lambda>i.
          if strict_eq iri i then Ok (Some key) else compactIri_term f ctx iri rest)
      else compactIri_term f ctx iri rest)"

text \<open>\<^verbatim>\<open>iri in keywords\<close> and \<^verbatim>\<open>keywords[iri]\<close>: of the values only a string can name
  a key of the table or an inherited name (for which the table gives the built-in); an
  array (which would be joined into a key) is not modelled.\<close>

definition keyword_alias :: "(string \<times> string) list \<Rightarrow> json \<Rightarrow> json option result" where
  "keyword_alias keywords iri =
     (case iri of
        JStr s \<Rightarrow> Ok (if kw_in keywords s then Some (kw_read keywords s) else None)
      | JArr xs \<Rightarrow> Throw Unmodelled
      | _ \<Rightarrow> Ok None)"

text \<open>The second loop: the first term whose \<^verbatim>\<open>@id\<close> is a proper prefix of the IRI.
  \<^verbatim>\<open>iri.indexOf\<close> needs a string; a \<^verbatim>\<open>ctxIri\<close> that is not a string has no \<^verbatim>\<open>length\<close>,
  which makes the comparison false.\<close>

fun compactIri_prefix :: "nat \<Rightarrow> obj \<Rightarrow> json \<Rightarrow> obj \<Rightarrow> string option result" where
  "compactIri_prefix f ctx iri [] = Ok None"
| "compactIri_prefix f ctx iri ((key, v) # rest) =
     (if term_key key then
        bindR (getContextValue f ctx key ''@id'' True) (\<lambda>ctxIri.
          if \<not> strict_eq ctxIri JNull then
            (case iri of
               JStr s \<Rightarrow>
                 (case ctxIri of
                    JStr c \<Rightarrow>
                      if take (length c) s = c \<and> length s > length c
                      then Ok (Some (key @ '':'' @ drop (length c) s))
                      else compactIri_prefix f ctx iri rest
                  | JArr xs \<Rightarrow> Throw Unmodelled
                  | _ \<Rightarrow> compactIri_prefix f ctx iri rest)
             | JArr xs \<Rightarrow> Throw Unmodelled
             | _ \<Rightarrow> Throw JsTypeError)
          else compactIri_prefix f ctx iri rest)
      else compactIri_prefix f ctx iri rest)"

text \<open>\<^verbatim>\<open>_compactIri(ctx, iri)\<close>: a term, else a keyword alias, else a prefix, else the
  IRI itself.\<close>

definition compactIri :: "nat \<Rightarrow> obj \<Rightarrow> json \<Rightarrow> json result" where
  "compactIri f ctx iri =
     bindR (compactIri_term f ctx iri ctx) (\<lambda>t.
       case t of
         Some key \<Rightarrow> Ok (JStr key)
       | None \<Rightarrow>
           bindR (keyword_alias (getKeywords ctx) iri) (\<lambda>a.
             case a of
               Some alias \<Rightarrow> Ok alias
             | None \<Rightarrow>
                 bindR (compactIri_prefix f ctx iri ctx) (\<lambda>q.
                   case q of
                     Some t \<Rightarrow> Ok (JStr t)
                   | None \<Rightarrow> Ok iri)))"

text \<open>The type the context gives a property, as both coercers look it up: the property
  is expanded; \<^verbatim>\<open>@id\<close> and \<^verbatim>\<open>@type\<close> are special (\<open>None\<close> here); otherwise the property
  is compacted again and its \<^verbatim>\<open>@type\<close> read from the context.\<close>

definition property_type :: "nat \<Rightarrow> obj \<Rightarrow> string option \<Rightarrow> json option result" where
  "property_type f ctx property =
     bindR (expandTerm f ctx (term_of property) False) (\<lambda>prop.
       if strict_eq prop (JStr ''@id'') \<or> strict_eq prop (JStr ''@type'') then Ok None
       else bindR (compactIri f ctx prop) (\<lambda>p.
            bindR (to_str p) (\<lambda>k.
            bindR (getContextValue f ctx k ''@type'' True) (\<lambda>ty. Ok (Some ty)))))"

text \<open>\<^verbatim>\<open>Processor.prototype.expandValue\<close>.  With no type in the context the value is
  returned as it is.\<close>

definition expandValue :: "nat \<Rightarrow> obj \<Rightarrow> string option \<Rightarrow> json \<Rightarrow> json result" where
  "expandValue f ctx property v =
     bindR (property_type f ctx property) (\<lambda>t.
       case t of
         None \<Rightarrow> expandTerm f ctx v False
       | Some ty \<Rightarrow>
           if strict_eq ty (JStr ''@id'') then
             bindR (expandTerm f ctx v False) (\<lambda>i. Ok (JObj [(''@id'', i)]))
           else if \<not> strict_eq ty JNull then
             bindR (to_str v) (\<lambda>s. Ok (JObj [(''@type'', ty), (''@value'', JStr s)]))
           else Ok v)"

text \<open>The keyword replacement loop of \<^verbatim>\<open>compactValue\<close>: \<^verbatim>\<open>rval[keywords[key]] = val\<close>;
  a key that is no keyword has the alias \<^verbatim>\<open>undefined\<close>, which as a key is the string
  \<^verbatim>\<open>"undefined"\<close>.\<close>

fun replace_keywords :: "nat \<Rightarrow> obj \<Rightarrow> obj \<Rightarrow> obj \<Rightarrow> obj result" where
  "replace_keywords f ctx [] rval = Ok rval"
| "replace_keywords f ctx ((key, v) # rest) rval =
     bindR (if key = ''@id'' \<or> key = ''@type'' then compactIri f ctx v else Ok v) (\<lambda>val.
     bindR (to_str (kw_read (getKeywords ctx) key)) (\<lambda>alias.
       replace_keywords f ctx rest (obj_set rval alias val)))"

text \<open>\<^verbatim>\<open>Processor.prototype.compactValue\<close>.\<close>

definition compactValue :: "nat \<Rightarrow> obj \<Rightarrow> string option \<Rightarrow> json \<Rightarrow> json result" where
  "compactValue f ctx property v =
     (case as_object v of
        Some fields \<Rightarrow>
          bindR (property_type f ctx property) (\<lambda>t.
            let ty = (case t of None \<Rightarrow> JStr ''@id'' | Some ty \<Rightarrow> ty) in
            if strict_eq ty JNull then
              bindR (replace_keywords f ctx fields []) (\<lambda>rval. Ok (JObj rval))
            else if obj_in fields ''@language'' then Throw (CompactError None)
            else if strict_eq ty (JStr ''@id'') then compactIri f ctx (obj_read fields ''@value'')
            else Ok (obj_read fields ''@value''))
      | None \<Rightarrow> Ok v)"

section \<open>The recursive rewriters\<close>

text \<open>\<^verbatim>\<open>_isSubject\<close>, \<^verbatim>\<open>_isSetValue\<close>, \<^verbatim>\<open>_isListValue\<close>, the test \<^verbatim>\<open>'@graph' in value\<close>
  and \<^verbatim>\<open>_isFrameKeyword\<close>.\<close>

definition isSubject :: "json \<Rightarrow> bool" where
  "isSubject v =
     (case as_object v of
        Some kvs \<Rightarrow>
          \<not> (obj_in kvs ''@value'' \<or> obj_in kvs ''@set'' \<or> obj_in kvs ''@list'') \<and>
          (length kvs > 1 \<or> \<not> obj_in kvs ''@id'')
      | None \<Rightarrow> False)"

definition isSetValue :: "json \<Rightarrow> bool" where
  "isSetValue v = (case as_object v of Some kvs \<Rightarrow> obj_in kvs ''@set'' | None \<Rightarrow> False)"

definition isListValue :: "json \<Rightarrow> bool" where
  "isListValue v = (case as_object v of Some kvs \<Rightarrow> obj_in kvs ''@list'' | None \<Rightarrow> False)"

definition isGraphValue :: "json \<Rightarrow> bool" where
  "isGraphValue v = (case as_object v of Some kvs \<Rightarrow> obj_in kvs ''@graph'' | None \<Rightarrow> False)"

definition isFrameKeyword :: "string \<Rightarrow> bool" where
  "isFrameKeyword key =
     (key = ''@embed'' \<or> key = ''@explicit'' \<or> key = ''@default'' \<or> key = ''@omitDefault'')"

text \<open>\<^verbatim>\<open>_isAbsoluteIri\<close>: the regular expression \<^verbatim>\<open>(\w+):\/\/(.+)\<close>, unanchored, holds when
  somewhere a word character is followed by \<^verbatim>\<open>://\<close> and one more character that is not a
  line terminator.\<close>

definition is_word :: "char \<Rightarrow> bool" where
  "is_word c =
     (let n = (of_char c :: nat) in
      (48 \<le> n \<and> n \<le> 57) \<or> (65 \<le> n \<and> n \<le> 90) \<or> n = 95 \<or> (97 \<le> n \<and> n \<le> 122))"

fun isAbsoluteIri :: "string \<Rightarrow> bool" where
  "isAbsoluteIri [] = False"
| "isAbsoluteIri (w # rest) =
     ((is_word w \<and>
       (case rest of
          c1 # c2 # c3 # d # more \<Rightarrow>
            c1 = CHR '':'' \<and> c2 = CHR ''/'' \<and> c3 = CHR ''/'' \<and>
            d \<noteq> CHR 0x0A \<and> d \<noteq> CHR 0x0D
        | _ \<Rightarrow> False))
      \<or> isAbsoluteIri rest)"

text \<open>
  Both rewriters guard a key with \<^verbatim>\<open>!jsonld.getContextValue(key) && !_isAbsoluteIri(key)\<close>.
  The call passes the key where the context belongs and nothing else, so
  \<^verbatim>\<open>getContextValue\<close> takes its first branch (\<^verbatim>\<open>type\<close> is undefined) and returns
  \<^verbatim>\<open>ctx[key] || null\<close> with \<^verbatim>\<open>ctx\<close> the key string and \<^verbatim>\<open>key\<close> undefined: the property
  \<^verbatim>\<open>"undefined"\<close> of a string, which no string has.  \<open>getContextValue_entry\<close> is that
  first branch; of a context that is not an object it reads nothing (a string has indices,
  a length and the members of its prototype, and \<^verbatim>\<open>undefined\<close> is none of them).
\<close>

definition getContextValue_entry :: "json \<Rightarrow> json \<Rightarrow> json" where
  "getContextValue_entry ctx key =
     (let entry = (case own_props ctx of
                     Some c \<Rightarrow> (case to_str key of Ok k \<Rightarrow> obj_read c k | _ \<Rightarrow> JUndef)
                   | None \<Rightarrow> JUndef)
      in if truthy entry then entry else JNull)"

text \<open>Reading one of the keys \<^verbatim>\<open>@list\<close>, \<^verbatim>\<open>@set\<close>, \<^verbatim>\<open>@graph\<close>, \<^verbatim>\<open>@context\<close> of any value
  that is not null or undefined: only an object can have them.\<close>

definition read_prop :: "json \<Rightarrow> string \<Rightarrow> json" where
  "read_prop v k = (case own_props v of Some kvs \<Rightarrow> obj_read kvs k | None \<Rightarrow> JUndef)"

lemma size_obj_read: "size (obj_read kvs k) < size (JObj kvs)"
proof (cases "map_of kvs k")
  case None
  then show ?thesis by (simp add: obj_read_def)
next
  case (Some v)
  then have "(k, v) \<in> set kvs" by (rule map_of_SomeD)
  then have "size v < Suc (size_list (size_prod (\<lambda>x. 0) size) kvs)"
    by (induction kvs) auto
  then show ?thesis using Some by (simp add: obj_read_def)
qed

lemma size_as_object:
  "as_object v = Some kvs \<Longrightarrow> size_list (size_prod (\<lambda>x. 0) size) kvs \<le> size v"
  by (cases v) (auto split: if_splits)

lemma size_read_prop: "as_object v \<noteq> None \<Longrightarrow> size (read_prop v k) \<le> size v"
proof (cases v)
  case (JObj kvs)
  then show ?thesis using size_obj_read [of kvs k] by (simp add: read_prop_def)
next
  case (JNative n)
  assume "as_object v \<noteq> None"
  then show ?thesis using JNative by (simp add: read_prop_def obj_read_def split: if_splits)
qed simp_all

lemma size_read_prop_arr: "read_prop v k = JArr xs \<Longrightarrow> size_list size xs < size v"
proof (cases v)
  case (JObj kvs)
  assume "read_prop v k = JArr xs"
  then show ?thesis using size_obj_read [of kvs k] JObj by (simp add: read_prop_def)
next
  case (JNative n)
  assume "read_prop v k = JArr xs"
  then show ?thesis using JNative
    by (simp add: read_prop_def obj_read_def split: if_splits)
qed (simp_all add: read_prop_def)

lemma size_read_prop_set: "isSetValue v \<Longrightarrow> size (read_prop v ''@set'') < size v"
proof (cases v)
  case (JObj kvs)
  then show ?thesis using size_obj_read [of kvs "''@set''"] by (simp add: read_prop_def)
next
  case (JNative n)
  assume "isSetValue v"
  then show ?thesis using JNative
    by (simp add: isSetValue_def obj_in_def obj_has_def proto_names_def split: if_splits)
qed (simp_all add: isSetValue_def)

text \<open>
  \<^verbatim>\<open>Processor.prototype.expand(ctx, property, value)\<close>.  The source sets
  \<^verbatim>\<open>var isList = value\<close>, so every truthy value takes the array branch and is read at
  \<^verbatim>\<open>'@list'\<close>.  \<open>expand_elems\<close> is the loop over the array and \<open>expand_fields\<close> the loop
  over the keys of a subject, with \<^verbatim>\<open>rval\<close> as accumulator.  \<^verbatim>\<open>Processor.prototype\<close> has no
  \<^verbatim>\<open>merge\<close>, so the call \<^verbatim>\<open>this.merge(...)\<close> is a \<^verbatim>\<open>TypeError\<close>.
\<close>

function expand :: "nat \<Rightarrow> obj \<Rightarrow> string option \<Rightarrow> json \<Rightarrow> json result"
  and expand_elems :: "nat \<Rightarrow> obj \<Rightarrow> string option \<Rightarrow> json list \<Rightarrow> json list result"
  and expand_fields :: "nat \<Rightarrow> obj \<Rightarrow> obj \<Rightarrow> obj \<Rightarrow> obj result"
where
  "expand f ctx property v =
     (if v = JNull then Ok JNull
      else if property = None \<and> isString v then expandTerm f ctx v False
      else if isArray v \<or> truthy v then
        (let isList = truthy v;
             v1 = (if isList then read_prop v ''@list'' else v)
         in if isList \<and> v1 = JNull then Ok JNull
            else (case v1 of
                    JArr xs \<Rightarrow>
                      bindR (expand_elems f ctx property xs) (\<lambda>rval.
                      bindR (getContextValue f ctx (key_of property) ''@container'' True)
                        (\<lambda>container.
                          Ok (if isList \<or> strict_eq container (JStr ''@list'')
                              then JObj [(''@list'', JArr rval)] else JArr rval)))
                  | _ \<Rightarrow> Throw SyntaxError))
      else if isSubject v then
        (case as_object v of
           Some kvs \<Rightarrow>
             if obj_in kvs ''@context'' then Throw JsTypeError
             else bindR (expand_fields f ctx kvs []) (\<lambda>rval. Ok (JObj rval))
         | None \<Rightarrow> Throw Unmodelled)
      else if isSetValue v then expand f ctx property (read_prop v ''@set'')
      else expandValue f ctx property v)"
| "expand_elems f ctx property [] = Ok []"
| "expand_elems f ctx property (x # xs) =
     (if isArray x then Throw SyntaxError
      else bindR (expand f ctx property x) (\<lambda>y.
           bindR (expand_elems f ctx property xs) (\<lambda>ys. Ok (y # ys))))"
| "expand_fields f ctx [] rval = Ok rval"
| "expand_fields f ctx ((key, v) # rest) rval =
     (if isFrameKeyword key then
        bindR (addValue rval key v True) (\<lambda>r. expand_fields f ctx rest r)
      else if key \<noteq> ''@context'' then
        (if \<not> truthy (getContextValue_entry (JStr key) JUndef) \<and> \<not> isAbsoluteIri key
         then expand_fields f ctx rest rval
         else bindR (expandTerm f ctx (JStr key) False) (\<lambda>prop.
              bindR (expand f ctx (Some key) v) (\<lambda>val.
                if \<not> strict_eq val JNull then
                  bindR (to_str prop) (\<lambda>p.
                  bindR (addValue rval p val True) (\<lambda>r. expand_fields f ctx rest r))
                else expand_fields f ctx rest rval)))
      else expand_fields f ctx rest rval)"
  by pat_completeness auto

termination
proof (relation "measure (\<lambda>x. case x of
          Inl (f, ctx, p, v) \<Rightarrow> 2 * size v + 1
        | Inr (Inl (f, ctx, p, xs)) \<Rightarrow> 2 * size_list size xs
        | Inr (Inr (f, ctx, kvs, rval)) \<Rightarrow> 2 * size_list (size_prod (\<lambda>x. 0) size) kvs)",
       goal_cases)
  case 1
  show ?case by simp
next
  case (2 f ctx property v x xa x5)
  then show ?case by (auto dest!: size_read_prop_arr [OF sym] split: if_splits)
next
  case (3 f ctx property v x6)
  then show ?case using size_as_object [of v x6] by simp
next
  case (4 f ctx property v)
  then show ?case by (simp add: size_read_prop_set)
qed simp_all

lemma size_read_prop_graph:
  "isObject v \<and> isGraphValue v \<Longrightarrow> size (read_prop v ''@graph'') < size v"
proof (cases v)
  case (JObj kvs)
  then show ?thesis using size_obj_read [of kvs "''@graph''"] by (simp add: read_prop_def)
next
  case (JNative n)
  assume "isObject v \<and> isGraphValue v"
  then show ?thesis using JNative
    by (simp add: isGraphValue_def obj_in_def obj_has_def proto_names_def split: if_splits)
qed (simp_all add: isGraphValue_def)

text \<open>
  \<^verbatim>\<open>Processor.prototype.compact(ctx, property, value, optimize)\<close>; \<^verbatim>\<open>optimize\<close> is not
  read.  \<open>compact_elems\<close> is the loop over the array and \<open>compact_fields\<close> the loop over
  the keys of a subject.  In both rewriters the \<open>case\<close> of a subject has a second branch
  only because HOL wants one: \<^verbatim>\<open>_isSubject\<close> holds of objects only.
\<close>

function compact :: "nat \<Rightarrow> obj \<Rightarrow> string option \<Rightarrow> json \<Rightarrow> json result"
  and compact_elems :: "nat \<Rightarrow> obj \<Rightarrow> string option \<Rightarrow> json list \<Rightarrow> json list result"
  and compact_fields :: "nat \<Rightarrow> obj \<Rightarrow> obj \<Rightarrow> obj \<Rightarrow> obj result"
where
  "compact f ctx property v =
     (if v = JNull then Ok JNull
      else if isArray v \<or> isListValue v then
        (let isList = isListValue v;
             v1 = (if isList then read_prop v ''@list'' else v)
         in if isList \<and> v1 = JNull then Ok JNull
            else (case v1 of
                    JArr xs \<Rightarrow>
                      bindR (compact_elems f ctx property xs) (\<lambda>rval.
                      bindR (getContextValue f ctx (key_of property) ''@container'' True)
                        (\<lambda>container.
                          let useList = (isList \<and> \<not> strict_eq container (JStr ''@list''))
                          in Ok (if useList then JObj [(''@list'', JArr rval)]
                                 else JArr rval)))
                  | _ \<Rightarrow> Throw SyntaxError))
      else if isObject v \<and> isGraphValue v then
        bindR (compact f ctx property (read_prop v ''@graph'')) (\<lambda>g.
          Ok (JObj [(case map_of (getKeywords ctx) ''@graph'' of
                       Some alias \<Rightarrow> alias | None \<Rightarrow> ''undefined'', g)]))
      else if isSubject v then
        (case as_object v of
           Some kvs \<Rightarrow> bindR (compact_fields f ctx kvs []) (\<lambda>rval. Ok (JObj rval))
         | None \<Rightarrow> Throw Unmodelled)
      else if isSetValue v then compact f ctx property (read_prop v ''@set'')
      else compactValue f ctx property v)"
| "compact_elems f ctx property [] = Ok []"
| "compact_elems f ctx property (x # xs) =
     (if isArray x then Throw SyntaxError
      else bindR (compact f ctx property x) (\<lambda>y.
           bindR (compact_elems f ctx property xs) (\<lambda>ys. Ok (y # ys))))"
| "compact_fields f ctx [] rval = Ok rval"
| "compact_fields f ctx ((key, v) # rest) rval =
     (if key \<noteq> ''@context'' then
        (if \<not> truthy (getContextValue_entry (JStr key) JUndef) \<and> \<not> isAbsoluteIri key
         then compact_fields f ctx rest rval
         else bindR (compactIri f ctx (JStr key)) (\<lambda>p.
              bindR (compact f ctx (Some key) v) (\<lambda>val.
              bindR (to_str p) (\<lambda>pk.
              bindR (getContextValue f ctx pk ''@container'' True) (\<lambda>container.
                let isArr = (strict_eq container (JStr ''@set'') \<or>
                             strict_eq container (JStr ''@list''))
                in bindR (addValue rval pk val isArr) (\<lambda>r.
                     compact_fields f ctx rest r))))))
      else compact_fields f ctx rest rval)"
  by pat_completeness auto

termination
proof (relation "measure (\<lambda>x. case x of
          Inl (f, ctx, p, v) \<Rightarrow> 2 * size v + 1
        | Inr (Inl (f, ctx, p, xs)) \<Rightarrow> 2 * size_list size xs
        | Inr (Inr (f, ctx, kvs, rval)) \<Rightarrow> 2 * size_list (size_prod (\<lambda>x. 0) size) kvs)",
       goal_cases)
  case 1
  show ?case by simp
next
  case (2 f ctx property v x xa x5)
  then show ?case by (auto dest!: size_read_prop_arr [OF sym] split: if_splits)
next
  case (3 f ctx property v)
  then show ?case using size_read_prop_graph [of v] by simp
next
  case (4 f ctx property v x6)
  then show ?case using size_as_object [of v x6] by simp
next
  case (5 f ctx property v)
  then show ?case by (simp add: size_read_prop_set)
qed simp_all

section \<open>Resolving context URLs\<close>

text \<open>
  Callbacks.  An operation reports through the callback it was given; \<open>Callback err v\<close>
  is one call of it, with \<open>None\<close> for a falsy error and \<open>JUndef\<close> for an argument that was
  not passed.  Running a piece of the program gives the calls it made, in order, and how
  it ended: it returned or it threw.
\<close>

datatype event = Callback "error option" json

datatype outcome = Returns "event list" | Throws "event list" error

type_synonym callback = "error option \<Rightarrow> json \<Rightarrow> outcome"

definition then_do :: "outcome \<Rightarrow> outcome \<Rightarrow> outcome" where
  "then_do a b =
     (case a of
        Returns es \<Rightarrow>
          (case b of
             Returns es' \<Rightarrow> Returns (es @ es')
           | Throws es' e \<Rightarrow> Throws (es @ es') e)
      | Throws es e \<Rightarrow> Throws es e)"

definition err_of :: "json \<Rightarrow> error option" where
  "err_of j = (if truthy j then Some (Plain j) else None)"

text \<open>What the function passed as \<^verbatim>\<open>resolver\<close> does when it is called with a URL and
  the function built by \<^verbatim>\<open>_resolveUrls\<close>: it calls that function back, at once, with an
  error and a context (\<open>Reply\<close>), or it does something else and never calls back.  A
  resolver that answers after \<^verbatim>\<open>_resolveUrls\<close> has returned is not modelled.\<close>

datatype reaction = Reply json json | Other outcome

text \<open>The regular expression of \<^verbatim>\<open>_resolveUrls\<close>, unanchored, with every group after
  \<^verbatim>\<open>(\S+)\<close> optional: somewhere \<^verbatim>\<open>http://\<close> or \<^verbatim>\<open>https://\<close> is followed by a character that
  is not white space.\<close>

definition is_space :: "char \<Rightarrow> bool" where
  "is_space c = (let n = (of_char c :: nat) in (9 \<le> n \<and> n \<le> 13) \<or> n = 32 \<or> n = 160)"

definition scheme_at :: "string \<Rightarrow> string \<Rightarrow> bool" where
  "scheme_at scheme s =
     (take (length scheme) s = scheme \<and>
      (case drop (length scheme) s of [] \<Rightarrow> False | c # cs \<Rightarrow> \<not> is_space c))"

fun valid_url :: "string \<Rightarrow> bool" where
  "valid_url [] = False"
| "valid_url (c # cs) =
     (scheme_at ''http://'' (c # cs) \<or> scheme_at ''https://'' (c # cs) \<or> valid_url cs)"

text \<open>
  \<^verbatim>\<open>findUrls(input, replace)\<close>, returning the input and \<^verbatim>\<open>urls\<close> as it leaves them.  An
  array is searched element by element; of an object only the key \<^verbatim>\<open>@context\<close> is
  looked at (the loop skips every other key and does not descend), and an object with
  an own key \<^verbatim>\<open>constructor\<close>, which fails \<^verbatim>\<open>_isObject\<close>, is passed over.
  \<open>context_array\<close> is the loop over an array context.
\<close>

fun context_array :: "bool \<Rightarrow> json list \<Rightarrow> obj \<Rightarrow> json list \<times> obj" where
  "context_array replace [] urls = ([], urls)"
| "context_array replace (c # cs) urls =
     (case c of
        JStr s \<Rightarrow>
          if s \<noteq> [] then
            (if replace then
               (let (cs', u) = context_array replace cs urls in (obj_read urls s # cs', u))
             else
               (let (cs', u) = context_array replace cs (obj_set urls s (JObj []))
                in (c # cs', u)))
          else (let (cs', u) = context_array replace cs urls in (c # cs', u))
      | _ \<Rightarrow> (let (cs', u) = context_array replace cs urls in (c # cs', u)))"

fun findUrls :: "bool \<Rightarrow> json \<Rightarrow> obj \<Rightarrow> json \<times> obj"
  and findUrls_each :: "bool \<Rightarrow> json list \<Rightarrow> obj \<Rightarrow> json list \<times> obj"
where
  "findUrls replace (JArr xs) urls =
     (let (ys, u) = findUrls_each replace xs urls in (JArr ys, u))"
| "findUrls replace (JObj kvs) urls =
     (case (if obj_has kvs ''constructor'' then None else obj_get kvs ''@context'') of
        None \<Rightarrow> (JObj kvs, urls)
      | Some ctx \<Rightarrow>
          (case ctx of
             JArr cs \<Rightarrow>
               (let (cs', u) = context_array replace cs urls
                in (JObj (obj_set kvs ''@context'' (JArr cs')), u))
           | JStr s \<Rightarrow>
               if s \<noteq> [] then
                 (if replace then (JObj (obj_set kvs ''@context'' (obj_read urls s)), urls)
                  else (JObj kvs, obj_set urls s (JObj [])))
               else (JObj kvs, urls)
           | _ \<Rightarrow> (JObj kvs, urls)))"
| "findUrls replace JNull urls = (JNull, urls)"
| "findUrls replace JUndef urls = (JUndef, urls)"
| "findUrls replace (JBool b) urls = (JBool b, urls)"
| "findUrls replace (JNum n) urls = (JNum n, urls)"
| "findUrls replace (JStr s) urls = (JStr s, urls)"
| "findUrls replace (JNative k) urls = (JNative k, urls)"
| "findUrls_each replace [] urls = ([], urls)"
| "findUrls_each replace (x # xs) urls =
     (let (y, u) = findUrls replace x urls;
          (ys, u') = findUrls_each replace xs u
      in (y # ys, u'))"

text \<open>\<^verbatim>\<open>finished()\<close>.  When \<^verbatim>\<open>_resolveUrls\<close> was called with two arguments its
  \<^verbatim>\<open>callback\<close> is undefined (\<open>None\<close>), and calling it is a \<^verbatim>\<open>TypeError\<close>.\<close>

definition finished :: "error list \<Rightarrow> json \<Rightarrow> callback option \<Rightarrow> outcome" where
  "finished errs inp cb =
     (case cb of
        None \<Rightarrow> Throws [] JsTypeError
      | Some k \<Rightarrow>
          if errs \<noteq> [] then k (Some (ContextUrlError errs)) JUndef else k None inp)"

text \<open>The variables the resolving loop shares with the function it hands to the
  resolver.\<close>

record rstate =
  st_urls :: obj
  st_count :: int
  st_errors :: "error list"
  st_input :: json

text \<open>The body of that function up to its last \<^verbatim>\<open>if\<close>: \<^verbatim>\<open>count\<close> goes down, a string
  reply is parsed (\<open>parse\<close> stands for \<^verbatim>\<open>JSON.parse\<close>, \<open>None\<close> when it throws), a reply
  that is not an object is an \<^verbatim>\<open>InvalidUrl\<close>, and either the error is recorded or the
  context is stored in \<^verbatim>\<open>urls\<close>.\<close>

definition on_reply ::
  "(string \<Rightarrow> json option) \<Rightarrow> string \<Rightarrow> json \<Rightarrow> json \<Rightarrow> rstate \<Rightarrow> rstate" where
  "on_reply parse url e c st =
     (let err0 = err_of e;
          (err1, ctx1) =
            (if err0 = None \<and> isString c then
               (case c of
                  JStr t \<Rightarrow> (case parse t of
                               Some j \<Rightarrow> (None, j)
                             | None \<Rightarrow> (Some JsSyntaxError, c))
                | _ \<Rightarrow> (err0, c))
             else (err0, c));
          err2 = (if err1 = None \<and> \<not> isObject ctx1 then Some (InvalidUrl url) else err1)
      in case err2 of
           Some er \<Rightarrow> st\<lparr>st_count := st_count st - 1, st_errors := st_errors st @ [er]\<rparr>
         | None \<Rightarrow>
             st\<lparr>st_count := st_count st - 1,
                st_urls := obj_set (st_urls st) url
                  (let c' = read_prop ctx1 ''@context''
                   in if truthy c' then c' else JObj [])\<rparr>)"

text \<open>The loop \<^verbatim>\<open>for(var url in urls)\<close>.  A malformed URL is counted and recorded, and
  the loop goes on; nothing else happens for it.\<close>

fun resolve_each ::
  "(string \<Rightarrow> json option) \<Rightarrow> (string \<Rightarrow> reaction) \<Rightarrow> callback option \<Rightarrow>
   string list \<Rightarrow> rstate \<Rightarrow> outcome" where
  "resolve_each parse resolver cb [] st = Returns []"
| "resolve_each parse resolver cb (url # rest) st =
     (if \<not> valid_url url then
        resolve_each parse resolver cb rest
          (st\<lparr>st_count := st_count st - 1, st_errors := st_errors st @ [InvalidUrl url]\<rparr>)
      else
        (case resolver url of
           Other out \<Rightarrow> then_do out (resolve_each parse resolver cb rest st)
         | Reply e c \<Rightarrow>
             (let st1 = on_reply parse url e c st in
              if st_count st1 = 0 then
                (let st2 = (if st_errors st1 = []
                            then st1\<lparr>st_input := fst (findUrls True (st_input st1) (st_urls st1))\<rparr>
                            else st1)
                 in then_do (finished (st_errors st2) (st_input st2) cb)
                      (resolve_each parse resolver cb rest st2))
              else resolve_each parse resolver cb rest st1)))"

text \<open>\<^verbatim>\<open>_resolveUrls(input, resolver, callback)\<close>.\<close>

definition resolveUrls ::
  "(string \<Rightarrow> json option) \<Rightarrow> json \<Rightarrow> (string \<Rightarrow> reaction) \<Rightarrow> callback option \<Rightarrow> outcome"
where
  "resolveUrls parse inp resolver cb =
     (let found = snd (findUrls False inp []);
          cnt = int (length found)
      in if cnt = 0 then finished [] inp cb
         else resolve_each parse resolver cb (map fst found)
                \<lparr>st_urls = found, st_count = cnt, st_errors = [], st_input = inp\<rparr>)"

section \<open>The public operations\<close>

text \<open>
  \<^verbatim>\<open>jsonld.expand(input, callback)\<close> clones the input and calls
  \<^verbatim>\<open>_resolveUrls(input, function(err, input) {...})\<close> with two arguments.
  \<^verbatim>\<open>_resolveUrls\<close> declares \<^verbatim>\<open>(input, resolver, callback)\<close>: the function arrives as the
  resolver and the callback is undefined.  \<open>expand_continuation\<close> is that function.
  As the resolver it is called with a URL and a function; the URL is a non-empty
  string, so it is the error, and the second argument (not a JSON value, \<open>JUndef\<close>
  here) is not read.  Its other branch calls \<^verbatim>\<open>Processor.prototype.expand\<close> with the
  callback as a fourth argument, which \<^verbatim>\<open>expand\<close> does not take: the result is dropped.
\<close>

definition expand_continuation :: "nat \<Rightarrow> callback \<Rightarrow> error option \<Rightarrow> json \<Rightarrow> outcome" where
  "expand_continuation f cb err inp =
     (case err of
        Some e \<Rightarrow> cb (Some e) JUndef
      | None \<Rightarrow>
          (case expand f [] None inp of
             Ok r \<Rightarrow> Returns []
           | Throw e \<Rightarrow> Throws [] e))"

definition jsonld_expand ::
  "nat \<Rightarrow> (string \<Rightarrow> json option) \<Rightarrow> json \<Rightarrow> callback \<Rightarrow> outcome" where
  "jsonld_expand f parse inp cb =
     resolveUrls parse (clone inp)
       (\<lambda>url. Other (expand_continuation f cb (err_of (JStr url)) JUndef)) None"

text \<open>
  \<^verbatim>\<open>jsonld.mergeContexts(ctx1, ctx2, callback)\<close> makes the same two-argument calls.
  \<open>merge_second\<close> is the inner function (it merges, and reports what the merge throws)
  and \<open>merge_first\<close> the outer one.  A callback that throws inside the \<^verbatim>\<open>try\<close> is called
  again from the \<^verbatim>\<open>catch\<close>.
\<close>

definition merge_second :: "nat \<Rightarrow> callback \<Rightarrow> json \<Rightarrow> error option \<Rightarrow> json \<Rightarrow> outcome" where
  "merge_second f cb c1 err c2 =
     (case err of
        Some e \<Rightarrow> cb (Some e) JUndef
      | None \<Rightarrow>
          (case mergeContexts f (read_prop c1 ''@context'') (read_prop c2 ''@context'') of
             Ok merged \<Rightarrow>
               (case cb None (JObj merged) of
                  Throws es ex \<Rightarrow> then_do (Returns es) (cb (Some ex) JUndef)
                | out \<Rightarrow> out)
           | Throw ex \<Rightarrow> cb (Some ex) JUndef))"

definition merge_first ::
  "nat \<Rightarrow> (string \<Rightarrow> json option) \<Rightarrow> callback \<Rightarrow> json \<Rightarrow> error option \<Rightarrow> json \<Rightarrow> outcome"
where
  "merge_first f parse cb ctx2 err c1 =
     (case err of
        Some e \<Rightarrow> cb (Some e) JUndef
      | None \<Rightarrow>
          resolveUrls parse (JObj [(''@context'', ctx2)])
            (\<lambda>url. Other (merge_second f cb c1 (err_of (JStr url)) JUndef)) None)"

definition jsonld_mergeContexts ::
  "nat \<Rightarrow> (string \<Rightarrow> json option) \<Rightarrow> json \<Rightarrow> json \<Rightarrow> callback \<Rightarrow> outcome" where
  "jsonld_mergeContexts f parse ctx1 ctx2 cb =
     (let c1 = clone (if truthy ctx1 then ctx1 else JObj []);
          c2 = clone (if truthy ctx2 then ctx2 else JObj [])
      in resolveUrls parse (JObj [(''@context'', c1)])
           (\<lambda>url. Other (merge_first f parse cb c2 (err_of (JStr url)) JUndef)) None)"

text \<open>\<^verbatim>\<open>compacted['@context'] = ctx\<close>: on an object it sets the key, on null and
  undefined it throws, on another primitive it does nothing; an array or a built-in with
  a named property is not modelled.\<close>

definition set_prop :: "json \<Rightarrow> string \<Rightarrow> json \<Rightarrow> json result" where
  "set_prop target k v =
     (case target of
        JObj kvs \<Rightarrow> Ok (JObj (obj_set kvs k v))
      | JNull \<Rightarrow> Throw JsTypeError
      | JUndef \<Rightarrow> Throw JsTypeError
      | JArr xs \<Rightarrow> Throw Unmodelled
      | JNative k \<Rightarrow> Throw Unmodelled
      | _ \<Rightarrow> Ok target)"

text \<open>
  \<^verbatim>\<open>cleanup(err, compacted, mergedCtx)\<close> of \<^verbatim>\<open>jsonld.compact\<close>.  \<^verbatim>\<open>_optimizeContext\<close>
  returns the merged context.  The last statement is \<^verbatim>\<open>callback(err)\<close>: the compacted
  document is not among the arguments.
\<close>

definition cleanup :: "json \<Rightarrow> bool \<Rightarrow> callback \<Rightarrow> error option \<Rightarrow> json \<Rightarrow> json \<Rightarrow> outcome" where
  "cleanup ctx optimize cb err compacted mergedCtx =
     (case err of
        Some e \<Rightarrow> cb (Some e) JUndef
      | None \<Rightarrow>
          (let usesUrls =
                 (isString ctx \<or>
                  (case ctx of JArr cs \<Rightarrow> list_ex isString cs | _ \<Rightarrow> False));
               added =
                 (if \<not> optimize \<or> usesUrls then
                    (if (case as_object ctx of Some c \<Rightarrow> length c > 0 | None \<Rightarrow> True)
                     then set_prop compacted ''@context'' ctx else Ok compacted)
                  else
                    (case own_props mergedCtx of
                       Some m \<Rightarrow> if length m > 0
                                 then set_prop compacted ''@context'' mergedCtx
                                 else Ok compacted
                     | None \<Rightarrow> Throw JsTypeError))
           in case added of
                Ok c \<Rightarrow> cb None JUndef
              | Throw e \<Rightarrow> Throws [] e))"

text \<open>
  \<^verbatim>\<open>jsonld.compact(input, ctx, [optimize], callback)\<close>.  \<open>compact_merged\<close> is the
  function given to \<^verbatim>\<open>jsonld.mergeContexts\<close> (it compacts \<^verbatim>\<open>input\<close>, not the expansion;
  its \<^verbatim>\<open>catch\<close> calls \<^verbatim>\<open>cleanup(err)\<close> with the falsy \<^verbatim>\<open>err\<close>), \<open>compact_continuation\<close> the
  one given to \<^verbatim>\<open>jsonld.expand\<close>.  The test for a null input calls \<^verbatim>\<open>callback\<close> before
  the variable is assigned.
\<close>

definition compact_merged ::
  "nat \<Rightarrow> json \<Rightarrow> json \<Rightarrow> bool \<Rightarrow> callback \<Rightarrow> error option \<Rightarrow> json \<Rightarrow> outcome" where
  "compact_merged f inp ctx optimize cb err mctx =
     (case err of
        Some e \<Rightarrow> cb (Some (CompactError (Some e))) JUndef
      | None \<Rightarrow>
          (case mctx of
             JObj c \<Rightarrow>
               (case compact f c None inp of
                  Ok compacted \<Rightarrow>
                    (case cleanup ctx optimize cb None compacted mctx of
                       Throws es ex \<Rightarrow>
                         then_do (Returns es) (cleanup ctx optimize cb None JUndef JUndef)
                     | out \<Rightarrow> out)
                | Throw ex \<Rightarrow> cleanup ctx optimize cb None JUndef JUndef)
           | _ \<Rightarrow> Throws [] Unmodelled))"

definition compact_continuation ::
  "nat \<Rightarrow> (string \<Rightarrow> json option) \<Rightarrow> json \<Rightarrow> json \<Rightarrow> bool \<Rightarrow> callback \<Rightarrow>
   error option \<Rightarrow> json \<Rightarrow> outcome" where
  "compact_continuation f parse inp ctx optimize cb err expanded =
     (case err of
        Some e \<Rightarrow> cb (Some (CompactError (Some e))) JUndef
      | None \<Rightarrow>
          jsonld_mergeContexts f parse (JObj []) ctx (compact_merged f inp ctx optimize cb))"

definition jsonld_compact ::
  "nat \<Rightarrow> (string \<Rightarrow> json option) \<Rightarrow> json \<Rightarrow> json \<Rightarrow> bool \<Rightarrow> callback \<Rightarrow> outcome" where
  "jsonld_compact f parse inp ctx optimize cb =
     (if inp = JNull then Throws [] JsTypeError
      else jsonld_expand f parse inp (compact_continuation f parse inp ctx optimize cb))"

definition record_cb :: callback where
  "record_cb err v = Returns [Callback err v]"

text \<open>The round trip of an input \<open>x\<close> through a context \<open>c\<close>: expand, compact the
  expansion with \<open>c\<close>, expand what that gave; each expansion starts, as
  \<^verbatim>\<open>jsonld.expand\<close> has it, from the empty context and no property.\<close>

definition roundtrip :: "nat \<Rightarrow> obj \<Rightarrow> json \<Rightarrow> json result" where
  "roundtrip f c x =
     bindR (expand f [] None x) (\<lambda>expanded.
     bindR (compact f c None expanded) (\<lambda>compacted.
       expand f [] None compacted))"

section \<open>The replacement rule of the merge\<close>

text \<open>
  A list of keys and values stands for an object of the program when it is what
  assigning its entries one by one to the empty object gives: every key once, the array
  indices first and in numeric order, and no own key \<^verbatim>\<open>__proto__\<close> (an assignment does
  not create one).  \<open>well_formed\<close> asks this of every object in a value.
\<close>

fun well_formed :: "json \<Rightarrow> bool"
  and well_formed_elems :: "json list \<Rightarrow> bool"
  and well_formed_fields :: "obj \<Rightarrow> bool"
where
  "well_formed (JObj kvs) = (rebuild kvs = kvs \<and> well_formed_fields kvs)"
| "well_formed (JArr xs) = well_formed_elems xs"
| "well_formed JNull = True"
| "well_formed JUndef = True"
| "well_formed (JBool b) = True"
| "well_formed (JNum n) = True"
| "well_formed (JStr s) = True"
| "well_formed (JNative k) = True"
| "well_formed_elems [] = True"
| "well_formed_elems (x # xs) = (well_formed x \<and> well_formed_elems xs)"
| "well_formed_fields [] = True"
| "well_formed_fields ((k, v) # kvs) = (well_formed v \<and> well_formed_fields kvs)"

text \<open>\<open>other_iri f c newIri k\<close>: in the context \<open>c\<close> the \<^verbatim>\<open>@id\<close> of the term \<open>k\<close>
  resolves without error, to something that is not \<^verbatim>\<open>===\<close> the new IRI.  The inner
  loop of the merge passes over such a term.\<close>

definition other_iri :: "nat \<Rightarrow> obj \<Rightarrow> json \<Rightarrow> string \<Rightarrow> bool" where
  "other_iri f c newIri k =
     (case getContextValue f c k ''@id'' True of
        Ok old \<Rightarrow> \<not> strict_eq newIri old
      | Throw e \<Rightarrow> False)"

lemma remove_match_first:
  assumes "list_all (\<lambda>(k, w). other_iri f rval newIri k) pre"
    and "getContextValue f rval a ''@id'' True = Ok old" and "strict_eq newIri old"
  shows "remove_match f rval newIri (pre @ (a, va) # post) = Ok (obj_del rval a)"
  using assms(1)
proof (induction pre)
  case Nil
  show ?case using assms(2,3) by (simp add: bindR_def)
next
  case (Cons p pre)
  obtain k w where p: "p = (k, w)" by (cases p)
  from Cons.prems p have o: "other_iri f rval newIri k" by simp
  then obtain j where j: "getContextValue f rval k ''@id'' True = Ok j" "\<not> strict_eq newIri j"
    by (auto simp add: other_iri_def split: result.splits)
  from Cons have "remove_match f rval newIri (pre @ (a, va) # post) = Ok (obj_del rval a)"
    by simp
  then show ?case using j p by (simp add: bindR_def)
qed

lemma remove_match_subset:
  "remove_match f rval newIri xs = Ok r \<Longrightarrow> set r \<subseteq> set rval"
proof (induction xs)
  case Nil
  then show ?case by simp
next
  case (Cons p xs)
  obtain k w where p: "p = (k, w)" by (cases p)
  show ?case
  proof (cases "getContextValue f rval k ''@id'' True")
    case (Throw e)
    then show ?thesis using Cons.prems p by (simp add: bindR_def)
  next
    case (Ok old)
    show ?thesis
    proof (cases "strict_eq newIri old")
      case True
      then have "r = obj_del rval k" using Cons.prems p Ok by (simp add: bindR_def)
      then show ?thesis by (auto simp add: obj_del_def AList.delete_eq)
    next
      case False
      then have "remove_match f rval newIri xs = Ok r"
        using Cons.prems p Ok by (simp add: bindR_def)
      then show ?thesis by (rule Cons.IH)
    qed
  qed
qed

lemma remove_old_subset:
  "remove_old f c2 rval ks = Ok r \<Longrightarrow> set r \<subseteq> set rval"
proof (induction ks arbitrary: rval)
  case Nil
  then show ?case by simp
next
  case (Cons p ks)
  obtain k w where p: "p = (k, w)" by (cases p)
  show ?case
  proof (cases "getContextValue f c2 k ''@id'' True")
    case (Throw e)
    then show ?thesis using Cons.prems p by (simp add: bindR_def)
  next
    case (Ok newIri)
    show ?thesis
    proof (cases "strict_eq newIri JNull")
      case True
      then have "remove_old f c2 rval ks = Ok r" using Cons.prems p Ok by (simp add: bindR_def)
      then show ?thesis by (rule Cons.IH)
    next
      case False
      show ?thesis
      proof (cases "remove_match f rval newIri rval")
        case (Throw e)
        then show ?thesis using Cons.prems p Ok False by (simp add: bindR_def)
      next
        case inner: (Ok r1)
        then have "remove_old f c2 r1 ks = Ok r"
          using Cons.prems p Ok False by (simp add: bindR_def)
        then have "set r \<subseteq> set r1" by (rule Cons.IH)
        moreover have "set r1 \<subseteq> set rval" using inner by (rule remove_match_subset)
        ultimately show ?thesis by blast
      qed
    qed
  qed
qed

lemma remove_old_append:
  "remove_old f c2 rval (xs @ ys) =
     bindR (remove_old f c2 rval xs) (\<lambda>r. remove_old f c2 r ys)"
proof (induction xs arbitrary: rval)
  case Nil
  show ?case by (simp add: bindR_def)
next
  case (Cons p xs)
  obtain k w where p: "p = (k, w)" by (cases p)
  show ?case
  proof (cases "getContextValue f c2 k ''@id'' True")
    case (Throw e)
    then show ?thesis using p by (simp add: bindR_def)
  next
    case (Ok newIri)
    show ?thesis
    proof (cases "strict_eq newIri JNull")
      case True
      then show ?thesis using p Ok Cons.IH by (simp add: bindR_def)
    next
      case False
      show ?thesis
      proof (cases "remove_match f rval newIri rval")
        case (Throw e)
        then show ?thesis using p Ok False by (simp add: bindR_def)
      next
        case inner: (Ok r1)
        then show ?thesis using p Ok False Cons.IH [of r1] by (simp add: bindR_def)
      qed
    qed
  qed
qed

lemma map_of_insert_index:
  "map_of ob k = None \<Longrightarrow>
   map_of (insert_index k v ob) k' = (if k' = k then Some v else map_of ob k')"
  by (induction ob) (auto split: if_splits)

lemma map_of_obj_set_other: "k' \<noteq> k \<Longrightarrow> map_of (obj_set ob k v) k' = map_of ob k'"
  by (auto simp add: obj_set_def obj_has_def update_conv' map_of_insert_index map_add_def
      split: option.splits)

lemma map_of_obj_set_same:
  "k \<noteq> ''__proto__'' \<Longrightarrow> map_of (obj_set ob k v) k = Some v"
  by (auto simp add: obj_set_def obj_has_def update_conv' map_of_insert_index map_add_def
      split: option.splits)

lemma overlay_other:
  "k \<notin> fst ` set c2 \<Longrightarrow>
   map_of (fold (\<lambda>(key, v) r. obj_set r key v) c2 rval) k = map_of rval k"
proof (induction c2 arbitrary: rval)
  case Nil
  show ?case by simp
next
  case (Cons p c2)
  obtain k0 v0 where p: "p = (k0, v0)" by (cases p)
  with Cons.prems have ne: "k \<noteq> k0" and rest: "k \<notin> fst ` set c2" by auto
  show ?case using Cons.IH [OF rest] p map_of_obj_set_other [OF ne] by simp
qed

lemma overlay_own:
  "distinct (map fst c2) \<Longrightarrow> (k, v) \<in> set c2 \<Longrightarrow> k \<noteq> ''__proto__'' \<Longrightarrow>
   map_of (fold (\<lambda>(key, v) r. obj_set r key v) c2 rval) k = Some v"
proof (induction c2 arbitrary: rval)
  case Nil
  then show ?case by simp
next
  case (Cons p c2)
  obtain k0 v0 where p: "p = (k0, v0)" by (cases p)
  show ?case
  proof (cases "(k, v) \<in> set c2")
    case True
    then show ?thesis using Cons p by simp
  next
    case False
    then have eq: "k0 = k" "v0 = v" using Cons.prems(2) p by auto
    then have "k \<notin> fst ` set c2" using Cons.prems(1) p by simp
    from overlay_other [OF this] show ?thesis
      using p eq map_of_obj_set_same [OF Cons.prems(3)] by simp
  qed
qed

lemma set_insert_index: "set (insert_index k v ob) = insert (k, v) (set ob)"
  by (induction ob) (auto split: if_splits)

lemma distinct_insert_index:
  "k \<notin> fst ` set ob \<Longrightarrow> distinct (map fst ob) \<Longrightarrow>
   distinct (map fst (insert_index k v ob))"
  by (induction ob) (auto simp add: set_insert_index)

lemma proto_not_index: "\<not> is_index ''__proto__''"
  by (simp add: is_index_def is_digit_def)

lemma obj_set_keys:
  assumes "distinct (map fst ob)" and "''__proto__'' \<notin> fst ` set ob"
  shows "distinct (map fst (obj_set ob k v)) \<and> ''__proto__'' \<notin> fst ` set (obj_set ob k v)"
proof (cases "obj_has ob k")
  case True
  then have "k \<in> fst ` set ob" by (simp add: obj_has_def map_of_eq_None_iff)
  then have "fst ` set (AList.update k v ob) = fst ` set ob"
    by (auto simp add: dom_update)
  then show ?thesis using assms True by (simp add: obj_set_def distinct_update)
next
  case False
  then have new: "k \<notin> fst ` set ob" by (simp add: obj_has_def map_of_eq_None_iff)
  show ?thesis
  proof (cases "k = ''__proto__''")
    case True
    then show ?thesis using assms False by (simp add: obj_set_def)
  next
    case other: False
    show ?thesis
    proof (cases "is_index k")
      case True
      then show ?thesis
        using assms False other new distinct_insert_index [OF new assms(1), of v]
        by (auto simp add: obj_set_def set_insert_index)
    next
      case False
      then show ?thesis using assms \<open>\<not> obj_has ob k\<close> other new
        by (auto simp add: obj_set_def)
    qed
  qed
qed

lemma overlay_keys:
  "distinct (map fst acc) \<Longrightarrow> ''__proto__'' \<notin> fst ` set acc \<Longrightarrow>
   distinct (map fst (fold (\<lambda>(k, v) r. obj_set r k v) kvs acc)) \<and>
   ''__proto__'' \<notin> fst ` set (fold (\<lambda>(k, v) r. obj_set r k v) kvs acc)"
proof (induction kvs arbitrary: acc)
  case Nil
  then show ?case by simp
next
  case (Cons p kvs)
  obtain k v where p: "p = (k, v)" by (cases p)
  from obj_set_keys [OF Cons.prems, of k v] Cons.IH [of "obj_set acc k v"] p
  show ?case by simp
qed

lemma rebuild_keys:
  "distinct (map fst (rebuild kvs)) \<and> ''__proto__'' \<notin> fst ` set (rebuild kvs)"
  unfolding rebuild_def using overlay_keys [of "[]" kvs] by simp

section \<open>Verified properties\<close>

text \<open>
  Claim C8.  The claim says that \<^verbatim>\<open>addValue\<close> appends a value that is new and leaves
  the subject alone when the value is already there.  The source tests the negation of
  \<^verbatim>\<open>jsonld.hasValue\<close>: on the subject \<^verbatim>\<open>{"p": "a"}\<close> the new value \<^verbatim>\<open>"b"\<close> is not added,
  the value \<^verbatim>\<open>"a"\<close> that is there is added a second time, and on a stored array the
  call throws because \<^verbatim>\<open>indexOf\<close> is not defined.
\<close>

theorem addValue_inverted:
  "addValue [(''p'', JStr ''a'')] ''p'' (JStr ''b'') False = Ok [(''p'', JStr ''a'')] \<and>
   addValue [(''p'', JStr ''a'')] ''p'' (JStr ''a'') False
     = Ok [(''p'', JArr [JStr ''a'', JStr ''a''])] \<and>
   addValue [(''p'', JArr [JStr ''a''])] ''p'' (JStr ''b'') False = Throw JsReferenceError"
  by code_simp

theorem addValue_inverted_witness:
  "addValue [(''p'', JStr ''a'')] ''p'' (JStr ''b'') False = Ok [(''p'', JStr ''a'')]"
  using addValue_inverted by (rule conjunct1)

text \<open>
  Claim C5.  The claim says that a term of an acyclic context expands to the fixed
  point.  In the context \<^verbatim>\<open>{"a": "b", "b": "http://x/i"}\<close> the term \<^verbatim>\<open>a\<close> raises
  \<^verbatim>\<open>CyclicalContext\<close>: the loop never assigns \<^verbatim>\<open>rval\<close>, so its second iteration finds
  \<^verbatim>\<open>rval\<close> in \<^verbatim>\<open>cycles\<close> whenever one more step changes the term.  The term \<^verbatim>\<open>b\<close>, one
  step from its IRI, expands, and both terms of \<^verbatim>\<open>{"a": "b", "b": "a"}\<close> raise.
\<close>

theorem expandTerm_acyclic_chain_raises:
  "expandTerm 10 [(''a'', JStr ''b''), (''b'', JStr ''http://x/i'')] (JStr ''a'') False
     = Throw CyclicalContext \<and>
   expandTerm 10 [(''a'', JStr ''b''), (''b'', JStr ''http://x/i'')] (JStr ''b'') False
     = Ok (JStr ''http://x/i'') \<and>
   expandTerm 10 [(''a'', JStr ''b''), (''b'', JStr ''a'')] (JStr ''a'') False
     = Throw CyclicalContext \<and>
   expandTerm 10 [(''a'', JStr ''b''), (''b'', JStr ''a'')] (JStr ''b'') False
     = Throw CyclicalContext"
  by code_simp

text \<open>
  Claim C1.  The claim says that expanding, compacting with a context and expanding
  again gives the first expansion.  On the document
  \<^verbatim>\<open>{"@context": {"name": "http://x/name"}, "name": "Bob"}\<close> the first expansion already
  raises a \<^verbatim>\<open>SyntaxError\<close>: \<^verbatim>\<open>var isList = value\<close> sends every truthy value into the
  array branch, where an object without \<^verbatim>\<open>@list\<close> is rejected.  On \<^verbatim>\<open>{"@list": ["a"]}\<close> the
  first expansion succeeds, the context \<^verbatim>\<open>{"null": {"@container": "@list"}}\<close> compacts it
  to the array \<^verbatim>\<open>["a"]\<close>, and expanding that array raises for the same reason.
\<close>

theorem roundtrip_raises:
  "expand 10 [] None
     (JObj [(''@context'', JObj [(''name'', JStr ''http://x/name'')]), (''name'', JStr ''Bob'')])
     = Throw SyntaxError \<and>
   roundtrip 10 [(''name'', JStr ''http://x/name'')]
     (JObj [(''@context'', JObj [(''name'', JStr ''http://x/name'')]), (''name'', JStr ''Bob'')])
     = Throw SyntaxError \<and>
   expand 10 [] None (JObj [(''@list'', JArr [JStr ''a''])])
     = Ok (JObj [(''@list'', JArr [JStr ''a''])]) \<and>
   roundtrip 10 [(''null'', JObj [(''@container'', JStr ''@list'')])]
     (JObj [(''@list'', JArr [JStr ''a''])])
     = Throw SyntaxError"
  by code_simp

text \<open>
  Claim C2.  The claim says that \<^verbatim>\<open>jsonld.expand\<close> on
  \<^verbatim>\<open>{"@context": {"name": "http://x/name"}, "name": "Bob"}\<close> succeeds with
  \<^verbatim>\<open>{"http://x/name": [{"@value": "Bob"}]}\<close>.  The operation throws a \<^verbatim>\<open>TypeError\<close> and
  never calls its callback, whatever the callback is: \<^verbatim>\<open>_resolveUrls\<close> is called without
  its third argument.  The rewriter by itself raises a \<^verbatim>\<open>SyntaxError\<close> on the cloned
  document, and so does the continuation that was meant to run it.
\<close>

theorem jsonld_expand_E1_throws:
  "jsonld_expand f parse
     (JObj [(''@context'', JObj [(''name'', JStr ''http://x/name'')]), (''name'', JStr ''Bob'')])
     cb = Throws [] JsTypeError \<and>
   expand 10 [] None
     (clone (JObj [(''@context'', JObj [(''name'', JStr ''http://x/name'')]),
                   (''name'', JStr ''Bob'')]))
     = Throw SyntaxError \<and>
   expand_continuation 10 cb None
     (clone (JObj [(''@context'', JObj [(''name'', JStr ''http://x/name'')]),
                   (''name'', JStr ''Bob'')]))
     = Throws [] SyntaxError"
  by code_simp

text \<open>
  Claim C3.  The claim says that \<^verbatim>\<open>jsonld.compact\<close> passes the compacted document,
  with its \<^verbatim>\<open>@context\<close>, to the callback.  On a document without context URLs the
  operation throws a \<^verbatim>\<open>TypeError\<close> and calls nothing; on one with a well-formed
  context URL the callback gets a \<^verbatim>\<open>CompactError\<close> whose cause is the URL; and
  \<^verbatim>\<open>cleanup\<close>, the step that would complete a compaction, calls the callback without
  the document.
\<close>

theorem jsonld_compact_no_result:
  "jsonld_compact f parse (JObj [(''http://x/name'', JStr ''Bob'')])
     (JObj [(''name'', JStr ''http://x/name'')]) False cb = Throws [] JsTypeError \<and>
   jsonld_compact f parse
     (JObj [(''@context'', JStr ''http://a/c''), (''http://x/name'', JStr ''Bob'')])
     (JObj [(''name'', JStr ''http://x/name'')]) False record_cb
     = Returns [Callback (Some (CompactError (Some (Plain (JStr ''http://a/c''))))) JUndef] \<and>
   cleanup (JObj [(''name'', JStr ''http://x/name'')]) False record_cb None
     (JObj [(''name'', JStr ''Bob'')]) (JObj [(''name'', JStr ''http://x/name'')])
     = Returns [Callback None JUndef]"
  by code_simp

theorem jsonld_compact_no_result_witness:
  "cleanup (JObj [(''name'', JStr ''http://x/name'')]) False record_cb None
     (JObj [(''name'', JStr ''Bob'')]) (JObj [(''name'', JStr ''http://x/name'')])
     = Returns [Callback None JUndef]"
  using jsonld_compact_no_result [of 0 "\<lambda>s. None" record_cb] by simp

text \<open>
  Claim C4.  The claim says that every call of \<^verbatim>\<open>jsonld.expand\<close> delivers its
  callback exactly once.  With no context URL in the input the callback is not called
  and a \<^verbatim>\<open>TypeError\<close> escapes; with two well-formed context URLs it is called twice,
  each time with a URL as the error; with a malformed context URL it is not called and
  the operation returns.
\<close>

theorem jsonld_expand_callback_count:
  "jsonld_expand f parse (JObj [(''t'', JStr ''v'')]) record_cb = Throws [] JsTypeError \<and>
   jsonld_expand f parse
     (JObj [(''@context'', JArr [JStr ''http://a/c'', JStr ''http://b/c''])]) record_cb
     = Returns [Callback (Some (Plain (JStr ''http://a/c''))) JUndef,
                Callback (Some (Plain (JStr ''http://b/c''))) JUndef] \<and>
   jsonld_expand f parse (JObj [(''@context'', JStr ''not a url'')]) record_cb = Returns []"
  by code_simp

text \<open>
  Claim C9.  The claim says that the URL pass completes exactly once with a
  \<^verbatim>\<open>ContextUrlError\<close> when a URL fails, in particular when every URL is malformed.
  When every collected URL is malformed the loop counts them down and records them,
  but \<^verbatim>\<open>finished\<close> is called only from the resolver's reply: the callback is never
  called, whatever the resolver.
\<close>

theorem resolveUrls_all_malformed_silent:
  "resolveUrls parse (JObj [(''@context'', JStr ''not a url'')]) resolver (Some record_cb)
     = Returns [] \<and>
   resolveUrls parse (JObj [(''@context'', JArr [JStr ''not a url'', JStr ''ftp://x/c''])])
     resolver (Some record_cb) = Returns []"
  by code_simp

text \<open>
  Claim C7.  The claim says that a key defined in the context is never dropped from a
  subject.  The guard \<^verbatim>\<open>jsonld.getContextValue(key)\<close> is null for every key, so each key
  that is not an absolute IRI is dropped: the compactor drops the term \<^verbatim>\<open>name\<close> that the
  context defines (alone, and beside an absolute IRI that is kept), the loop of the
  expander drops it too, and the expander as a whole raises on the subject.
\<close>

theorem subject_keys_dropped:
  "compact 10 [(''name'', JStr ''http://x/name'')] None (JObj [(''name'', JStr ''Bob'')])
     = Ok (JObj []) \<and>
   compact 10 [(''name'', JObj [(''@id'', JStr ''http://x/name''), (''@container'', JStr ''@set'')])]
     None (JObj [(''http://x/name'', JStr ''Bob''), (''name'', JStr ''Al'')])
     = Ok (JObj [(''name'', JArr [JStr ''Bob''])]) \<and>
   expand_fields 10 [(''name'', JStr ''http://x/name'')] [(''name'', JStr ''Bob'')] []
     = Ok [] \<and>
   expand 10 [(''name'', JStr ''http://x/name'')] None (JObj [(''name'', JStr ''Bob'')])
     = Throw SyntaxError"
  by code_simp

text \<open>
  Claim C10, amended.  \<^verbatim>\<open>getValues(s, p)\<close> always returns an array: the stored array
  when the own \<^verbatim>\<open>s[p]\<close> is an array; the singleton of \<^verbatim>\<open>s[p]\<close> when it is a truthy value
  that is not an array; the empty array when \<^verbatim>\<open>s[p]\<close> is one of the falsy values null,
  false, 0 and the empty string, and when \<^verbatim>\<open>p\<close> is neither an own key of \<^verbatim>\<open>s\<close> nor a
  member of \<^verbatim>\<open>Object.prototype\<close>.  For a member of \<^verbatim>\<open>Object.prototype\<close> that is not an
  own key, it returns the singleton of the inherited value.
\<close>

theorem getValues_cases:
  "(\<forall>xs. obj_get s p = Some (JArr xs) \<longrightarrow> getValues s p = JArr xs) \<and>
   (\<forall>v. obj_get s p = Some v \<and> truthy v \<and> \<not> isArray v \<longrightarrow> getValues s p = JArr [v]) \<and>
   (obj_get s p = None \<and> p \<notin> set proto_names \<longrightarrow> getValues s p = JArr []) \<and>
   (obj_get s p = None \<and> p \<in> set proto_names \<longrightarrow> getValues s p = JArr [JNative p]) \<and>
   (\<forall>v \<in> {JNull, JBool False, JNum 0, JStr ''''}.
      obj_get s p = Some v \<longrightarrow> getValues s p = JArr []) \<and>
   (\<exists>xs. getValues s p = JArr xs)"
proof -
  have arr: "\<exists>xs. getValues s p = JArr xs"
  proof (cases "obj_get s p")
    case None
    then show ?thesis by (simp add: getValues_def obj_read_def obj_get_def)
  next
    case (Some v)
    then show ?thesis
      by (cases v) (simp_all add: getValues_def obj_read_def obj_get_def)
  qed
  show ?thesis using arr by (auto simp add: getValues_def obj_read_def obj_get_def)
qed

theorem getValues_cases_witness:
  "getValues [(''p'', JArr [JNum 1, JNum 2])] ''p'' = JArr [JNum 1, JNum 2] \<and>
   getValues [(''p'', JStr ''a'')] ''p'' = JArr [JStr ''a''] \<and>
   getValues [(''q'', JStr ''a'')] ''p'' = JArr [] \<and>
   getValues [(''q'', JStr ''a'')] ''valueOf'' = JArr [JNative ''valueOf''] \<and>
   getValues [(''p'', JNum 0)] ''p'' = JArr [] \<and>
   getValues [(''p'', JNull)] ''p'' = JArr [] \<and>
   getValues [(''p'', JBool False)] ''p'' = JArr [] \<and>
   getValues [(''p'', JStr '''')] ''p'' = JArr []"
  using getValues_cases [of "[(''p'', JArr [JNum 1, JNum 2])]" "''p''"]
        getValues_cases [of "[(''p'', JStr ''a'')]" "''p''"]
        getValues_cases [of "[(''q'', JStr ''a'')]" "''p''"]
        getValues_cases [of "[(''q'', JStr ''a'')]" "''valueOf''"]
        getValues_cases [of "[(''p'', JNum 0)]" "''p''"]
        getValues_cases [of "[(''p'', JNull)]" "''p''"]
        getValues_cases [of "[(''p'', JBool False)]" "''p''"]
        getValues_cases [of "[(''p'', JStr '''')]" "''p''"]
  by (simp add: obj_get_def proto_names_def)

text \<open>
  The claim as stated fails for an inherited name: \<^verbatim>\<open>constructor\<close> is absent from the
  empty subject, and \<^verbatim>\<open>getValues({}, "constructor")\<close> is the singleton of the inherited
  function, not the empty array.
\<close>

theorem getValues_inherited_name:
  "obj_get [] ''constructor'' = None \<and>
   getValues [] ''constructor'' = JArr [JNative ''constructor''] \<and>
   getValues [] ''constructor'' \<noteq> JArr []"
  by code_simp

text \<open>
  Claim C6, amended.  Let \<open>c1\<close> and \<open>c2\<close> be well-formed objects, \<open>c2\<close> with the entry
  \<open>v\<close> for its term \<open>b\<close> and without the term \<open>a\<close>.  Let the loop of the merge get
  through the terms of \<open>c2\<close> before \<open>b\<close> without error and leave \<open>r1\<close> of the clone of
  \<open>c1\<close>; let the \<^verbatim>\<open>@id\<close> of \<open>b\<close> resolve in \<open>c2\<close> to \<open>iri\<close>; let \<open>a\<close> be the first term of
  \<open>r1\<close> whose \<^verbatim>\<open>@id\<close> resolves in \<open>r1\<close> to \<open>iri\<close>, every term before it resolving without
  error to something else; and let the loop get through the terms of \<open>c2\<close> after \<open>b\<close>
  without error.  Then merging \<open>c1\<close> with \<open>c2\<close> succeeds, and in the merged context \<open>b\<close>
  has the entry \<open>v\<close> and \<open>a\<close> is absent.  Three instances follow the theorem: the merge
  of \<^verbatim>\<open>{"a": "http://x/i"}\<close> with \<^verbatim>\<open>{"b": "http://x/i"}\<close>, which is
  \<^verbatim>\<open>{"b": "http://x/i"}\<close>; a context \<open>c1\<close> that reaches the IRI through a prefix, with a
  term scanned before; and a context \<open>c1\<close> whose terms are the array indices \<^verbatim>\<open>9\<close> and
  \<^verbatim>\<open>10\<close>, of which \<^verbatim>\<open>9\<close> is scanned first and removed.
\<close>

theorem mergeContexts_replaces_term:
  assumes wf1: "well_formed (JObj c1)"
    and wf2: "well_formed (JObj c2)"
    and split2: "c2 = before @ (b, v) # after"
    and early: "remove_old f c2 (clone_obj c1) before = Ok r1"
    and new: "getContextValue f c2 b ''@id'' True = Ok (JStr iri)"
    and split1: "r1 = pre @ (a, va) # post"
    and others: "list_all (\<lambda>(k, w). other_iri f r1 (JStr iri) k) pre"
    and old: "getContextValue f r1 a ''@id'' True = Ok (JStr iri)"
    and late: "remove_old f c2 (obj_del r1 a) after = Ok r2"
    and fresh: "\<not> obj_has c2 a"
  shows "\<exists>r. mergeContexts f (JObj c1) (JObj c2) = Ok r \<and>
              obj_get r b = Some v \<and> \<not> obj_has r a"
proof -
  have "rebuild c2 = c2" using wf2 by simp
  then have keys: "distinct (map fst c2)" and plain: "''__proto__'' \<notin> fst ` set c2"
    using rebuild_keys [of c2] by simp_all
  have bmem: "(b, v) \<in> set c2" using split2 by simp
  have named: "b \<noteq> ''__proto__''" using plain bmem by force
  have scan: "remove_match f r1 (JStr iri) r1 = Ok (obj_del r1 a)"
    using remove_match_first [OF others old, of va post] split1 by simp
  have at_b: "remove_old f c2 r1 ((b, v) # after) = Ok r2"
    using new scan late by (simp add: bindR_def)
  have loop: "remove_old f c2 (clone_obj c1) c2 = Ok r2"
    using remove_old_append [of f c2 "clone_obj c1" before "(b, v) # after"] early at_b split2
    by (simp add: bindR_def)
  let ?res = "fold (\<lambda>(key, v) r. obj_set r key v) c2 r2"
  have run: "mergeContexts f (JObj c1) (JObj c2) = Ok ?res"
    using loop by (simp add: mergeContexts_def bindR_def)
  have "set r2 \<subseteq> set (obj_del r1 a)" using late by (rule remove_old_subset)
  then have "fst ` set r2 \<subseteq> fst ` set (AList.delete a r1)"
    by (auto simp add: obj_del_def)
  then have a_gone: "a \<notin> fst ` set r2" using delete_notin_dom [of a r1] by blast
  have a_c2: "a \<notin> fst ` set c2" using fresh by (simp add: obj_has_def map_of_eq_None_iff)
  have "map_of ?res a = map_of r2 a" by (rule overlay_other [OF a_c2])
  then have no_a: "\<not> obj_has ?res a"
    using a_gone by (simp add: obj_has_def map_of_eq_None_iff)
  have has_b: "obj_get ?res b = Some v"
    using overlay_own [OF keys bmem named] by (simp add: obj_get_def)
  show ?thesis using run has_b no_a by blast
qed

theorem mergeContexts_replaces_term_witness:
  "well_formed (JObj [(''a'', JStr ''http://x/i'')]) \<and>
   well_formed (JObj [(''b'', JStr ''http://x/i'')]) \<and>
   remove_old 4 [(''b'', JStr ''http://x/i'')] (clone_obj [(''a'', JStr ''http://x/i'')]) []
     = Ok [(''a'', JStr ''http://x/i'')] \<and>
   getContextValue 4 [(''b'', JStr ''http://x/i'')] ''b'' ''@id'' True
     = Ok (JStr ''http://x/i'') \<and>
   getContextValue 4 [(''a'', JStr ''http://x/i'')] ''a'' ''@id'' True
     = Ok (JStr ''http://x/i'') \<and>
   remove_old 4 [(''b'', JStr ''http://x/i'')] (obj_del [(''a'', JStr ''http://x/i'')] ''a'') []
     = Ok [] \<and>
   \<not> obj_has [(''b'', JStr ''http://x/i'')] ''a'' \<and>
   (\<exists>r. mergeContexts 4 (JObj [(''a'', JStr ''http://x/i'')])
          (JObj [(''b'', JStr ''http://x/i'')]) = Ok r \<and>
        obj_get r ''b'' = Some (JStr ''http://x/i'') \<and> \<not> obj_has r ''a'') \<and>
   mergeContexts 4 (JObj [(''a'', JStr ''http://x/i'')]) (JObj [(''b'', JStr ''http://x/i'')])
     = Ok [(''b'', JStr ''http://x/i'')] \<and>
   other_iri 6 [(''ex'', JStr ''http://x/''), (''t'', JStr ''ex:i'')] (JStr ''http://x/i'')
     ''ex'' \<and>
   (\<exists>r. mergeContexts 6 (JObj [(''t'', JStr ''ex:i''), (''ex'', JStr ''http://x/'')])
          (JObj [(''z'', JStr ''http://z/''), (''b'', JStr ''http://x/i'')]) = Ok r \<and>
        obj_get r ''b'' = Some (JStr ''http://x/i'') \<and> \<not> obj_has r ''t'') \<and>
   (\<exists>r. mergeContexts 4 (JObj [(''9'', JStr ''http://x/i''), (''10'', JStr ''http://x/i'')])
          (JObj [(''b'', JStr ''http://x/i'')]) = Ok r \<and>
        obj_get r ''b'' = Some (JStr ''http://x/i'') \<and> \<not> obj_has r ''9'')"
proof -
  let ?I = "JStr ''http://x/i''"
  have h1: "well_formed (JObj [(''a'', ?I)])" by code_simp
  have h2: "well_formed (JObj [(''b'', ?I)])" by code_simp
  have h3: "[(''b'', ?I)] = [] @ (''b'', ?I) # []" by simp
  have h4: "remove_old 4 [(''b'', ?I)] (clone_obj [(''a'', ?I)]) [] = Ok [(''a'', ?I)]"
    by code_simp
  have h5: "getContextValue 4 [(''b'', ?I)] ''b'' ''@id'' True = Ok ?I" by code_simp
  have h6: "[(''a'', ?I)] = [] @ (''a'', ?I) # []" by simp
  have h7: "list_all (\<lambda>(k, w). other_iri 4 [(''a'', ?I)] ?I k) []" by simp
  have h8: "getContextValue 4 [(''a'', ?I)] ''a'' ''@id'' True = Ok ?I" by code_simp
  have h9: "remove_old 4 [(''b'', ?I)] (obj_del [(''a'', ?I)] ''a'') [] = Ok []"
    by code_simp
  have h10: "\<not> obj_has [(''b'', ?I)] ''a''" by code_simp
  have h11: "mergeContexts 4 (JObj [(''a'', ?I)]) (JObj [(''b'', ?I)]) = Ok [(''b'', ?I)]"
    by code_simp
  let ?c1 = "[(''t'', JStr ''ex:i''), (''ex'', JStr ''http://x/'')]"
  let ?c2 = "[(''z'', JStr ''http://z/''), (''b'', ?I)]"
  let ?r1 = "[(''ex'', JStr ''http://x/''), (''t'', JStr ''ex:i'')]"
  have g1: "well_formed (JObj ?c1)" by code_simp
  have g2: "well_formed (JObj ?c2)" by code_simp
  have g3: "?c2 = [(''z'', JStr ''http://z/'')] @ (''b'', ?I) # []" by simp
  have g4: "remove_old 6 ?c2 (clone_obj ?c1) [(''z'', JStr ''http://z/'')] = Ok ?r1"
    by code_simp
  have g5: "getContextValue 6 ?c2 ''b'' ''@id'' True = Ok ?I" by code_simp
  have g6: "?r1 = [(''ex'', JStr ''http://x/'')] @ (''t'', JStr ''ex:i'') # []" by simp
  have g7a: "other_iri 6 ?r1 ?I ''ex''" by code_simp
  have g7: "list_all (\<lambda>(k, w). other_iri 6 ?r1 ?I k) [(''ex'', JStr ''http://x/'')]"
    using g7a by simp
  have g8: "getContextValue 6 ?r1 ''t'' ''@id'' True = Ok ?I" by code_simp
  have g9: "remove_old 6 ?c2 (obj_del ?r1 ''t'') [] = Ok [(''ex'', JStr ''http://x/'')]"
    by code_simp
  have g10: "\<not> obj_has ?c2 ''t''" by code_simp
  let ?n1 = "[(''9'', ?I), (''10'', ?I)]"
  have n1: "well_formed (JObj ?n1)" by code_simp
  have n4: "remove_old 4 [(''b'', ?I)] (clone_obj ?n1) [] = Ok ?n1" by code_simp
  have n6: "?n1 = [] @ (''9'', ?I) # [(''10'', ?I)]" by simp
  have n7: "list_all (\<lambda>(k, w). other_iri 4 ?n1 ?I k) []" by simp
  have n8: "getContextValue 4 ?n1 ''9'' ''@id'' True = Ok ?I" by code_simp
  have n9: "remove_old 4 [(''b'', ?I)] (obj_del ?n1 ''9'') [] = Ok [(''10'', ?I)]"
    by code_simp
  have n10: "\<not> obj_has [(''b'', ?I)] ''9''" by code_simp
  show ?thesis
    using h1 h2 h4 h5 h8 h9 h10 h11 g7a
      mergeContexts_replaces_term [OF h1 h2 h3 h4 h5 h6 h7 h8 h9 h10]
      mergeContexts_replaces_term [OF g1 g2 g3 g4 g5 g6 g7 g8 g9 g10]
      mergeContexts_replaces_term [OF n1 h2 h3 n4 h5 n6 n7 n8 n9 n10]
    by simp
qed

text \<open>
  The claim as stated fails when \<open>c1\<close> has two terms for the IRI: the inner loop stops
  at the first match, so of \<^verbatim>\<open>{"A": "http://x/i", "a": "http://x/i"}\<close> merged with
  \<^verbatim>\<open>{"b": "http://x/i"}\<close> the term \<^verbatim>\<open>a\<close> stays.
\<close>

theorem mergeContexts_keeps_second_term:
  "mergeContexts 10 (JObj [(''A'', JStr ''http://x/i''), (''a'', JStr ''http://x/i'')])
     (JObj [(''b'', JStr ''http://x/i'')])
   = Ok [(''a'', JStr ''http://x/i''), (''b'', JStr ''http://x/i'')]"
  by code_simp


end
